theory Spec2Isabelle
  imports Main "HOL-Library.Sublist"
begin

section \<open>Values exchanged with the platform\<close>

text \<open>
  The two service workers of the repository (\<^verbatim>\<open>service-worker.js\<close> and \<^verbatim>\<open>sw.js\<close>)
  are event handlers over the browser's Cache Storage, network, push and client APIs.
  The handlers are embedded as functions that take the state they read (the cache
  storage, the list of connected clients, the clock reading) together with the answers
  of the network, and return the state they leave behind and the effects they issue.
  Where both files have a listener of the same kind, the one of \<^verbatim>\<open>service-worker.js\<close>
  carries the suffix \<open>sw1\<close> and the one of \<^verbatim>\<open>sw.js\<close> the suffix \<open>sw2\<close>; the offline
  queue (\<open>saveOfflineData\<close>, \<open>syncOfflineTrades\<close>) exists in \<^verbatim>\<open>service-worker.js\<close> only.
\<close>

text \<open>JavaScript values that travel as JSON. An object is its property list, one
  binding per name; \<open>undefined\<close> is \<open>None\<close> of \<open>json option\<close>.\<close>

datatype json =
    JNull
  | JBool bool
  | JNum int
  | JStr string
  | JArr "json list"
  | JObj "(string \<times> json) list"

datatype error =
    TypeError
  | SyntaxError
  | SyncFailed
  | StorageError string

text \<open>A settled promise.\<close>

datatype 'a settled = Fulfilled 'a | Rejected error

text \<open>Property access \<open>data.k\<close> on a value that is not \<open>null\<close>: an object answers with
  its binding, every other value with \<open>undefined\<close>. On \<open>null\<close> JavaScript throws a
  TypeError; the handlers below test for \<open>JNull\<close> before they read a property.\<close>

fun field :: "json \<Rightarrow> string \<Rightarrow> json option" where
  "field (JObj kvs) k = map_of kvs k"
| "field _ k = None"

text \<open>Truthiness, as the operator \<open>||\<close> tests it.\<close>

fun truthy :: "json option \<Rightarrow> bool" where
  "truthy None = False"
| "truthy (Some JNull) = False"
| "truthy (Some (JBool b)) = b"
| "truthy (Some (JNum n)) = (n \<noteq> 0)"
| "truthy (Some (JStr s)) = (s \<noteq> [])"
| "truthy (Some (JArr xs)) = True"
| "truthy (Some (JObj kvs)) = True"

definition or_else :: "json option \<Rightarrow> json \<Rightarrow> json" where
  "or_else v d = (if truthy v then the v else d)"

text \<open>The text of a body or of a push payload. \<open>Json j\<close> stands for a text that parses
  as the JSON value \<open>j\<close> (what \<open>JSON.stringify\<close> writes and \<open>.json()\<close> reads back);
  \<open>Text s\<close> stands for the text \<open>s\<close> when it is not valid JSON, so that \<open>.json()\<close>
  throws a SyntaxError on it.\<close>

datatype content = Json json | Text string

section \<open>URLs, requests and responses\<close>

record URL =
  protocol :: string
  hostname :: string
  port :: string
  pathname :: string
  search :: string

text \<open>The serialised URL, which \<open>request.url\<close> returns.\<close>

definition href :: "URL \<Rightarrow> string" where
  "href u = protocol u @ ''//'' @ hostname u
     @ (if port u = [] then [] else CHR '':'' # port u) @ pathname u @ search u"

text \<open>A path-absolute reference such as \<open>'/api/trades/sync'\<close>, resolved against the
  worker's own location.\<close>

definition resolve :: "URL \<Rightarrow> string \<Rightarrow> URL" where
  "resolve base p = base\<lparr>pathname := p, search := []\<rparr>"

text \<open>\<open>String.prototype.includes\<close>.\<close>

fun includes_str :: "string \<Rightarrow> string \<Rightarrow> bool" where
  "includes_str [] p = (p = [])"
| "includes_str (c # cs) p = (prefix p (c # cs) \<or> includes_str cs p)"

text \<open>The decimal digits of a number, as a template literal writes it.\<close>

definition digit :: "nat \<Rightarrow> char" where
  "digit d = ''0123456789'' ! d"

fun digits_of :: "nat \<Rightarrow> string" where
  "digits_of n = (if n < 10 then [digit n] else digits_of (n div 10) @ [digit (n mod 10)])"

declare digits_of.simps [simp del]

record request =
  http_method :: string
  url :: URL

record response =
  status :: nat
  rtype :: string
  vary :: "string list"
  body :: content

definition ok :: "response \<Rightarrow> bool" where
  "ok r = (200 \<le> status r \<and> status r \<le> 299)"

text \<open>\<open>new Request(u)\<close> and \<open>new Response(text)\<close> with their defaults.\<close>

definition new_Request :: "URL \<Rightarrow> request" where
  "new_Request u = \<lparr>http_method = ''GET'', url = u\<rparr>"

definition new_Response :: "content \<Rightarrow> response" where
  "new_Response b = \<lparr>status = 200, rtype = ''default'', vary = [], body = b\<rparr>"

text \<open>What \<open>fetch\<close> settles to: a response of any status, or a rejection when the
  network cannot be reached. The network is a parameter of every handler.\<close>

datatype fetch_result = NetResponse response | NetFailure

type_synonym network = "request \<Rightarrow> fetch_result"

section \<open>Cache Storage\<close>

text \<open>
  A cache is the list of its entries in insertion order, a cache storage the list of its
  named caches in creation order. The operations follow the Cache API: \<open>match\<close> and
  \<open>delete\<close> find nothing for a request whose method is not GET; \<open>put\<close> rejects such a
  request with a TypeError, as it rejects a response of status 206 or with the header
  \<open>Vary: *\<close>, and otherwise replaces the entry of the same URL; \<open>open\<close> creates a
  missing cache; and \<open>caches.match\<close> answers from the first cache, in creation order,
  that holds the request. A response carries the values of its \<open>Vary\<close> header, empty
  when it has none. Failures of the storage backend, the matching of requests against
  the header names of \<open>Vary\<close>, URL fragments and requests of a scheme other than http
  and https are not modelled.
\<close>

type_synonym cache = "(request \<times> response) list"

type_synonym cache_storage = "(string \<times> cache) list"

fun cache_match :: "cache \<Rightarrow> request \<Rightarrow> response option" where
  "cache_match [] r = None"
| "cache_match ((k, v) # es) r =
     (if http_method r = ''GET'' \<and> url k = url r then Some v else cache_match es r)"

definition cache_delete :: "cache \<Rightarrow> request \<Rightarrow> cache" where
  "cache_delete c r = (if http_method r = ''GET'' then filter (\<lambda>(k, v). url k \<noteq> url r) c else c)"

text \<open>The responses that \<open>put\<close> and \<open>addAll\<close> accept: not a partial response (status
  206), and no \<open>Vary\<close> header with the value \<open>*\<close>.\<close>

definition cacheable :: "response \<Rightarrow> bool" where
  "cacheable v = (status v \<noteq> 206 \<and> ''*'' \<notin> set (vary v))"

definition cache_put :: "cache \<Rightarrow> request \<Rightarrow> response \<Rightarrow> error + cache" where
  "cache_put c r v =
     (if http_method r = ''GET'' \<and> cacheable v
      then Inr (filter (\<lambda>(k, v). url k \<noteq> url r) c @ [(r, v)])
      else Inl TypeError)"

definition cache_keys :: "cache \<Rightarrow> request list" where
  "cache_keys c = map fst c"

definition caches_keys :: "cache_storage \<Rightarrow> string list" where
  "caches_keys s = map fst s"

definition caches_open :: "string \<Rightarrow> cache_storage \<Rightarrow> cache_storage" where
  "caches_open name s = (if name \<in> set (caches_keys s) then s else s @ [(name, [])])"

definition caches_get :: "cache_storage \<Rightarrow> string \<Rightarrow> cache" where
  "caches_get s name = (case map_of s name of None \<Rightarrow> [] | Some c \<Rightarrow> c)"

definition caches_set :: "cache_storage \<Rightarrow> string \<Rightarrow> cache \<Rightarrow> cache_storage" where
  "caches_set s name c = map (\<lambda>(n, c'). if n = name then (n, c) else (n, c')) s"

definition caches_delete :: "cache_storage \<Rightarrow> string \<Rightarrow> cache_storage" where
  "caches_delete s name = filter (\<lambda>(n, c). n \<noteq> name) s"

fun caches_match :: "cache_storage \<Rightarrow> request \<Rightarrow> response option" where
  "caches_match [] r = None"
| "caches_match ((n, c) # s) r =
     (case cache_match c r of Some v \<Rightarrow> Some v | None \<Rightarrow> caches_match s r)"

text \<open>The detached write \<open>caches.open(name).then(cache => cache.put(request, response))\<close>:
  the cache is created when missing; a rejected \<open>put\<close> leaves its entries as they were.\<close>

definition open_and_put :: "string \<Rightarrow> request \<Rightarrow> response \<Rightarrow> cache_storage \<Rightarrow> cache_storage" where
  "open_and_put name r v s =
     (let s1 = caches_open name s in
      case cache_put (caches_get s1 name) r v of
        Inl e \<Rightarrow> s1
      | Inr c \<Rightarrow> caches_set s1 name c)"

text \<open>The invariant of a cache that the Cache API maintains: every key is a GET request
  and no two entries have the same URL.\<close>

definition wf_cache :: "cache \<Rightarrow> bool" where
  "wf_cache c = (list_all (\<lambda>(k, v). http_method k = ''GET'') c \<and> distinct (map (\<lambda>(k, v). url k) c))"

section \<open>Messages to the clients\<close>

datatype message =
    SYNC_COMPLETED nat nat
  | SYNC_FAILED error
  | OFFLINE_DATA_SAVED nat "json option"

type_synonym client = nat

text \<open>\<open>clients.forEach(client => client.postMessage(m))\<close>\<close>

definition broadcast :: "client list \<Rightarrow> message \<Rightarrow> (client \<times> message) list" where
  "broadcast clients m = map (\<lambda>c. (c, m)) clients"

section \<open>The offline queue of \<^verbatim>\<open>service-worker.js\<close>\<close>

record save_outcome =
  saved_storage :: cache_storage
  saved_posted :: "(client \<times> message) list"

text \<open>\<open>saveOfflineData(data)\<close>. \<open>now\<close> is the reading of \<open>Date.now()\<close>, \<open>base\<close> the worker's
  location. The entry is written first; the messages are built afterwards, and reading
  \<open>data.type\<close> of \<open>null\<close> throws inside that detached step, so that nothing is posted.\<close>

definition saveOfflineData :: "URL \<Rightarrow> client list \<Rightarrow> nat \<Rightarrow> json \<Rightarrow> cache_storage \<Rightarrow> save_outcome" where
  "saveOfflineData base clients now data s =
     (let s1 = caches_open ''offline-data'' s;
          timestamp = now;
          request = new_Request (resolve base (''/api/offline/'' @ digits_of timestamp));
          response = new_Response (Json data);
          s2 = (case cache_put (caches_get s1 ''offline-data'') request response of
                  Inl e \<Rightarrow> s1
                | Inr c \<Rightarrow> caches_set s1 ''offline-data'' c)
      in \<lparr>saved_storage = s2,
          saved_posted =
            (if data = JNull then []
             else broadcast clients (OFFLINE_DATA_SAVED timestamp (field data ''type'')))\<rparr>)"

text \<open>One entry of the drain, the body of the callback mapped over \<open>tradeRequests\<close>:
  read the stored payload, POST it to \<open>/api/trades/sync\<close>, delete the entry when the
  server answers with an ok status, throw otherwise. \<open>srv k d\<close> is what the POST made
  for the entry under key \<open>k\<close>, with payload \<open>d\<close>, settles to.\<close>

type_synonym server = "request \<Rightarrow> json \<Rightarrow> fetch_result"

definition payload_of :: "cache \<Rightarrow> request \<Rightarrow> error + json" where
  "payload_of c k =
     (case cache_match c k of
        None \<Rightarrow> Inl TypeError
      | Some response \<Rightarrow>
          (case body response of Text t \<Rightarrow> Inl SyntaxError | Json data \<Rightarrow> Inr data))"

definition sync_entry :: "server \<Rightarrow> request \<Rightarrow> cache \<Rightarrow> json settled \<times> json list \<times> cache" where
  "sync_entry srv k c =
     (case payload_of c k of
        Inl e \<Rightarrow> (Rejected e, [], c)
      | Inr data \<Rightarrow>
          (case srv k data of
             NetFailure \<Rightarrow> (Rejected TypeError, [data], c)
           | NetResponse serverResponse \<Rightarrow>
               if ok serverResponse then (Fulfilled data, [data], cache_delete c k)
               else (Rejected SyncFailed, [data], c)))"

text \<open>\<open>Promise.allSettled(tradeRequests.map(...))\<close>: every callback runs, whatever the
  others settle to. The callbacks are run here one after the other, in the order of
  \<open>tradeRequests\<close>; each reads and deletes only the entry of its own key, so that the
  order in which the browser interleaves them does not change the result (lemma
  \<open>sync_all_spec\<close> below). The result lists the settled promises, the payloads that were
  POSTed, and the cache that is left.\<close>

fun sync_all :: "server \<Rightarrow> request list \<Rightarrow> cache \<Rightarrow> json settled list \<times> json list \<times> cache" where
  "sync_all srv [] c = ([], [], c)"
| "sync_all srv (k # ks) c =
     (case sync_entry srv k c of
        (r, sent, c1) \<Rightarrow>
          (case sync_all srv ks c1 of
             (rs, sents, c2) \<Rightarrow> (r # rs, sent @ sents, c2)))"

definition is_fulfilled :: "'a settled \<Rightarrow> bool" where
  "is_fulfilled r = (case r of Fulfilled x \<Rightarrow> True | Rejected e \<Rightarrow> False)"

definition tradeRequests :: "request list \<Rightarrow> request list" where
  "tradeRequests keys = filter (\<lambda>key. includes_str (href (url key)) ''/api/trades'') keys"

record sync_outcome =
  sync_storage :: cache_storage
  sync_posted :: "(client \<times> message) list"
  sync_sent :: "json list"
  sync_promise :: "unit settled"

text \<open>\<open>syncOfflineTrades()\<close>. \<open>unreadable\<close> is the error with which \<open>caches.open\<close> or
  \<open>cache.keys\<close> rejects when the storage backend cannot be read, the only way into the
  \<open>catch\<close> block.\<close>

definition syncOfflineTrades ::
  "error option \<Rightarrow> server \<Rightarrow> client list \<Rightarrow> cache_storage \<Rightarrow> sync_outcome" where
  "syncOfflineTrades unreadable srv clients s =
     (case unreadable of
        Some e \<Rightarrow>
          \<lparr>sync_storage = s, sync_posted = broadcast clients (SYNC_FAILED e),
           sync_sent = [], sync_promise = Rejected e\<rparr>
      | None \<Rightarrow>
          (let s1 = caches_open ''offline-data'' s;
               cache = caches_get s1 ''offline-data'';
               keys = cache_keys cache;
               trades = tradeRequests keys
           in case sync_all srv trades cache of
                (results, sent, cache') \<Rightarrow>
                  (let successCount = length (filter is_fulfilled results)
                   in \<lparr>sync_storage = caches_set s1 ''offline-data'' cache',
                       sync_posted = broadcast clients (SYNC_COMPLETED successCount (length trades)),
                       sync_sent = sent,
                       sync_promise = Fulfilled ()\<rparr>)))"

text \<open>The keys that \<open>saveOfflineData\<close> writes: GET requests on the worker's origin whose
  path is \<open>/api/offline/\<close> followed by decimal digits, without a query.\<close>

definition is_offline_key :: "URL \<Rightarrow> request \<Rightarrow> bool" where
  "is_offline_key base k =
     (http_method k = ''GET'' \<and> protocol (url k) = protocol base \<and> hostname (url k) = hostname base
      \<and> port (url k) = port base \<and> search (url k) = []
      \<and> take 13 (pathname (url k)) = ''/api/offline/''
      \<and> list_all (\<lambda>c. c \<in> set ''0123456789'') (drop 13 (pathname (url k))))"

text \<open>A location whose scheme, host name and port are free of slashes, as the URL syntax
  requires.\<close>

definition wf_origin :: "URL \<Rightarrow> bool" where
  "wf_origin base =
     (CHR ''/'' \<notin> set (protocol base) \<and> CHR ''/'' \<notin> set (hostname base) \<and> CHR ''/'' \<notin> set (port base))"

section \<open>Install\<close>

text \<open>\<open>cache.addAll(urls)\<close> of the Cache API: every URL is fetched with a GET request;
  when one fetch is rejected, or answers with a status that is not ok, with status 206 or
  with the header \<open>Vary: *\<close>, \<open>addAll\<close> rejects with a TypeError and stores nothing;
  otherwise all responses are stored.\<close>

fun fetch_all :: "network \<Rightarrow> request list \<Rightarrow> error + (request \<times> response) list" where
  "fetch_all net [] = Inr []"
| "fetch_all net (r # rs) =
     (case net r of
        NetFailure \<Rightarrow> Inl TypeError
      | NetResponse v \<Rightarrow>
          if ok v \<and> cacheable v then
            (case fetch_all net rs of Inl e \<Rightarrow> Inl e | Inr es \<Rightarrow> Inr ((r, v) # es))
          else Inl TypeError)"

fun put_all :: "cache \<Rightarrow> (request \<times> response) list \<Rightarrow> cache" where
  "put_all c [] = c"
| "put_all c ((r, v) # es) =
     put_all (case cache_put c r v of Inl e \<Rightarrow> c | Inr c1 \<Rightarrow> c1) es"

definition cache_addAll :: "network \<Rightarrow> URL list \<Rightarrow> cache \<Rightarrow> error + cache" where
  "cache_addAll net urls c =
     (case fetch_all net (map new_Request urls) of
        Inl e \<Rightarrow> Inl e
      | Inr es \<Rightarrow> Inr (put_all c es))"

definition CACHE_NAME_sw1 :: string where
  "CACHE_NAME_sw1 = ''neotrade-v1.0.0''"

definition font_awesome :: URL where
  "font_awesome = \<lparr>protocol = ''https:'', hostname = ''cdnjs.cloudflare.com'', port = [],
     pathname = ''/ajax/libs/font-awesome/6.4.0/css/all.min.css'', search = []\<rparr>"

definition CACHE_URLS :: "URL \<Rightarrow> URL list" where
  "CACHE_URLS base =
     [resolve base ''/'', resolve base ''/index.html'', resolve base ''/manifest.json'',
      font_awesome]"

definition STATIC_CACHE_NAME :: string where
  "STATIC_CACHE_NAME = ''neotrade-static-v4''"

definition DYNAMIC_CACHE_NAME :: string where
  "DYNAMIC_CACHE_NAME = ''neotrade-dynamic-v4''"

definition STATIC_ASSETS :: "URL \<Rightarrow> URL list" where
  "STATIC_ASSETS base =
     [resolve base ''/'', resolve base ''/index.html'', resolve base ''/manifest.json'',
      font_awesome,
      \<lparr>protocol = ''https:'', hostname = ''fonts.googleapis.com'', port = [],
       pathname = ''/css2'',
       search = ''?family=Inter:wght@300;400;500;600;700;800&display=swap''\<rparr>]"

text \<open>The install listeners. \<open>installed\<close> is what the promise handed to
  \<open>event.waitUntil\<close> settles to, \<open>skip_waiting\<close> whether \<open>self.skipWaiting()\<close> was called:
  \<^verbatim>\<open>service-worker.js\<close> calls it in the chain after \<open>addAll\<close>, \<^verbatim>\<open>sw.js\<close> calls it in the
  listener's body, whatever \<open>addAll\<close> does.\<close>

record install_outcome =
  installed :: "unit settled"
  skip_waiting :: bool
  install_storage :: cache_storage

definition install_sw1 :: "network \<Rightarrow> URL \<Rightarrow> cache_storage \<Rightarrow> install_outcome" where
  "install_sw1 net base s =
     (let s1 = caches_open CACHE_NAME_sw1 s in
      case cache_addAll net (CACHE_URLS base) (caches_get s1 CACHE_NAME_sw1) of
        Inl e \<Rightarrow> \<lparr>installed = Rejected e, skip_waiting = False, install_storage = s1\<rparr>
      | Inr c \<Rightarrow>
          \<lparr>installed = Fulfilled (), skip_waiting = True,
           install_storage = caches_set s1 CACHE_NAME_sw1 c\<rparr>)"

definition install_sw2 :: "network \<Rightarrow> URL \<Rightarrow> cache_storage \<Rightarrow> install_outcome" where
  "install_sw2 net base s =
     (let s1 = caches_open STATIC_CACHE_NAME s in
      case cache_addAll net (STATIC_ASSETS base) (caches_get s1 STATIC_CACHE_NAME) of
        Inl e \<Rightarrow> \<lparr>installed = Rejected e, skip_waiting = True, install_storage = s1\<rparr>
      | Inr c \<Rightarrow>
          \<lparr>installed = Fulfilled (), skip_waiting = True,
           install_storage = caches_set s1 STATIC_CACHE_NAME c\<rparr>)"

text \<open>The platform's side of the install phase: a registration names the version that is
  active and the version that has been installed and may activate. When the promise
  handed to \<open>waitUntil\<close> is rejected the new worker is discarded and the registration is
  left as it was; when it is fulfilled the new version becomes the one that may activate.\<close>

record registration =
  active :: "string option"
  eligible :: "string option"

definition after_install :: "string \<Rightarrow> install_outcome \<Rightarrow> registration \<Rightarrow> registration" where
  "after_install version outcome reg =
     (case installed outcome of
        Rejected e \<Rightarrow> reg
      | Fulfilled u \<Rightarrow> reg\<lparr>eligible := Some version\<rparr>)"

section \<open>Activate\<close>

text \<open>The calls an activate listener issues, in the order in which it issues them.\<close>

datatype effect = Deleted string | Claimed

record activate_outcome =
  activate_storage :: cache_storage
  activate_trace :: "effect list"

text \<open>\<^verbatim>\<open>service-worker.js\<close>: \<open>caches.keys()\<close>, then the deletions, then, once all of them
  are done, \<open>self.clients.claim()\<close>.\<close>

definition activate_sw1 :: "cache_storage \<Rightarrow> activate_outcome" where
  "activate_sw1 s =
     (let cacheNames = caches_keys s;
          stale = filter (\<lambda>cacheName. cacheName \<noteq> CACHE_NAME_sw1) cacheNames
      in \<lparr>activate_storage = fold (\<lambda>cacheName s1. caches_delete s1 cacheName) stale s,
          activate_trace = map Deleted stale @ [Claimed]\<rparr>)"

text \<open>\<^verbatim>\<open>sw.js\<close>: \<open>self.clients.claim()\<close> is a statement of the listener's body, which runs
  to its end before the callback of \<open>caches.keys()\<close> issues the first deletion.\<close>

definition activate_sw2 :: "cache_storage \<Rightarrow> activate_outcome" where
  "activate_sw2 s =
     (let cacheNames = caches_keys s;
          stale = filter (\<lambda>cacheName. cacheName \<noteq> STATIC_CACHE_NAME \<and> cacheName \<noteq> DYNAMIC_CACHE_NAME)
                    cacheNames
      in \<lparr>activate_storage = fold (\<lambda>cacheName s1. caches_delete s1 cacheName) stale s,
          activate_trace = Claimed # map Deleted stale\<rparr>)"

text \<open>Whether every deletion of a trace comes before the claim.\<close>

fun cleanup_before_claim :: "effect list \<Rightarrow> bool" where
  "cleanup_before_claim [] = True"
| "cleanup_before_claim (Deleted n # es) = cleanup_before_claim es"
| "cleanup_before_claim (Claimed # es) = list_all (\<lambda>e. e = Claimed) es"

section \<open>Fetch\<close>

text \<open>What a fetch listener does with a request: it returns without calling
  \<open>event.respondWith\<close>, or it calls it with a promise that settles to a response, to
  \<open>undefined\<close> or to a rejection. \<open>fetched\<close> lists the requests the worker sends to the
  network itself, \<open>awaited\<close> those among them whose promise is part of the chain handed
  to \<open>respondWith\<close>, so that the response waits for the network to settle them; a fetch
  that is started and whose promise is dropped is in \<open>fetched\<close> only. \<open>fetch_storage\<close> is
  the cache storage once the detached writes are done.\<close>

datatype respond = NotIntercepted | RespondWith "response option settled"

record fetch_outcome =
  responded :: respond
  fetched :: "request list"
  awaited :: "request list"
  fetch_storage :: cache_storage

text \<open>What the page that made the request receives. A request that is not intercepted
  goes to the network as if there were no worker; a promise that is rejected or that
  settles to something that is not a response gives the page a network error.\<close>

definition delivered :: "network \<Rightarrow> request \<Rightarrow> respond \<Rightarrow> fetch_result" where
  "delivered net r a =
     (case a of
        NotIntercepted \<Rightarrow> net r
      | RespondWith (Fulfilled (Some v)) \<Rightarrow> NetResponse v
      | RespondWith (Fulfilled None) \<Rightarrow> NetFailure
      | RespondWith (Rejected e) \<Rightarrow> NetFailure)"

definition is_api_sw1 :: "request \<Rightarrow> bool" where
  "is_api_sw1 r =
     (includes_str (pathname (url r)) ''/api/'' \<or> hostname (url r) = ''fapi.binance.com'')"

definition fetch_sw1 :: "network \<Rightarrow> request \<Rightarrow> cache_storage \<Rightarrow> fetch_outcome" where
  "fetch_sw1 net r s =
     (if is_api_sw1 r then
        (case net r of
           NetResponse v \<Rightarrow>
             \<lparr>responded = RespondWith (Fulfilled (Some v)), fetched = [r], awaited = [r],
              fetch_storage = (if status v = 200 then open_and_put CACHE_NAME_sw1 r v s else s)\<rparr>
         | NetFailure \<Rightarrow>
             \<lparr>responded = RespondWith (Fulfilled (caches_match s r)), fetched = [r], awaited = [r],
              fetch_storage = s\<rparr>)
      else
        (case caches_match s r of
           Some v \<Rightarrow>
             \<lparr>responded = RespondWith (Fulfilled (Some v)), fetched = [], awaited = [], fetch_storage = s\<rparr>
         | None \<Rightarrow>
             (case net r of
                NetResponse v \<Rightarrow>
                  \<lparr>responded = RespondWith (Fulfilled (Some v)), fetched = [r], awaited = [r],
                   fetch_storage = s\<rparr>
              | NetFailure \<Rightarrow>
                  \<lparr>responded = RespondWith (Rejected TypeError), fetched = [r], awaited = [r],
                   fetch_storage = s\<rparr>)))"

definition is_api_sw2 :: "request \<Rightarrow> bool" where
  "is_api_sw2 r =
     (includes_str (hostname (url r)) ''binance.com'' \<or> includes_str (hostname (url r)) ''binance.me'')"

definition fetch_sw2 :: "network \<Rightarrow> request \<Rightarrow> cache_storage \<Rightarrow> fetch_outcome" where
  "fetch_sw2 net r s =
     (if http_method r \<noteq> ''GET'' then
        \<lparr>responded = NotIntercepted, fetched = [], awaited = [], fetch_storage = s\<rparr>
      else if is_api_sw2 r then
        (case net r of
           NetResponse v \<Rightarrow>
             \<lparr>responded = RespondWith (Fulfilled (Some v)), fetched = [r], awaited = [r],
              fetch_storage = (if ok v then open_and_put DYNAMIC_CACHE_NAME r v s else s)\<rparr>
         | NetFailure \<Rightarrow>
             \<lparr>responded = RespondWith (Fulfilled (caches_match s r)), fetched = [r], awaited = [r],
              fetch_storage = s\<rparr>)
      else
        (case caches_match s r of
           Some cachedResponse \<Rightarrow>
             \<lparr>responded = RespondWith (Fulfilled (Some cachedResponse)), fetched = [r], awaited = [],
              fetch_storage =
                (case net r of
                   NetResponse v \<Rightarrow> if ok v then open_and_put STATIC_CACHE_NAME r v s else s
                 | NetFailure \<Rightarrow> s)\<rparr>
         | None \<Rightarrow>
             (case net r of
                NetResponse v \<Rightarrow>
                  if status v \<noteq> 200 \<or> rtype v \<noteq> ''basic'' then
                    \<lparr>responded = RespondWith (Fulfilled (Some v)), fetched = [r], awaited = [r],
                     fetch_storage = s\<rparr>
                  else
                    \<lparr>responded = RespondWith (Fulfilled (Some v)), fetched = [r], awaited = [r],
                     fetch_storage = open_and_put STATIC_CACHE_NAME r v s\<rparr>
              | NetFailure \<Rightarrow>
                  \<lparr>responded = RespondWith (Rejected TypeError), fetched = [r], awaited = [r],
                   fetch_storage = s\<rparr>)))"

section \<open>Push\<close>

text \<open>The argument of a push listener is the payload \<open>event.data\<close>, \<open>None\<close> when the push
  message has none. The result is the notification handed to \<open>showNotification\<close>, or the
  error the listener throws.\<close>

record notification_sw1 =
  n1_title :: json
  n1_body :: "json option"
  n1_icon :: json
  n1_badge :: string
  n1_vibrate :: "nat list"
  n1_data :: json
  n1_actions :: "(string \<times> string) list"
  n1_requireInteraction :: bool

definition show_sw1 :: "json \<Rightarrow> error + notification_sw1" where
  "show_sw1 data =
     (if data = JNull then Inl TypeError
      else Inr \<lparr>n1_title = or_else (field data ''title'') (JStr ''NeoTrade''),
                n1_body = field data ''body'',
                n1_icon = or_else (field data ''icon'') (JStr ''/icon-192.png''),
                n1_badge = ''/badge-72.png'',
                n1_vibrate = [100, 50, 100],
                n1_data = or_else (field data ''data'') (JObj []),
                n1_actions = [(''view-trade'', ''View Trade''), (''dismiss'', ''Dismiss'')],
                n1_requireInteraction = True\<rparr>)"

text \<open>\<^verbatim>\<open>service-worker.js\<close>: \<open>event.data.json()\<close> inside \<open>try\<close>; the \<open>catch\<close> block builds the
  data from \<open>event.data.text()\<close>, which throws again when there is no payload at all.\<close>

definition push_sw1 :: "content option \<Rightarrow> error + notification_sw1" where
  "push_sw1 event_data =
     (case event_data of
        None \<Rightarrow> Inl TypeError
      | Some (Json j) \<Rightarrow> show_sw1 j
      | Some (Text t) \<Rightarrow>
          show_sw1 (JObj [(''title'', JStr ''NeoTrade''), (''body'', JStr t),
                          (''icon'', JStr ''/icon-192.png'')]))"

record notification_sw2 =
  n2_title :: json
  n2_body :: json
  n2_icon :: string
  n2_badge :: string
  n2_vibrate :: "nat list"
  n2_dateOfArrival :: nat
  n2_primaryKey :: string
  n2_tradeId :: "json option"
  n2_symbol :: "json option"
  n2_type :: "json option"
  n2_actions :: "(string \<times> string) list"

text \<open>\<^verbatim>\<open>sw.js\<close>: \<open>event.data ? event.data.json() : {}\<close>, with no \<open>try\<close> around it.\<close>

definition push_sw2 :: "nat \<Rightarrow> content option \<Rightarrow> error + notification_sw2" where
  "push_sw2 now event_data =
     (case (case event_data of
              None \<Rightarrow> Inr (JObj [])
            | Some (Json j) \<Rightarrow> Inr j
            | Some (Text t) \<Rightarrow> Inl SyntaxError) of
        Inl e \<Rightarrow> Inl e
      | Inr data \<Rightarrow>
          if data = JNull then Inl TypeError
          else Inr \<lparr>n2_title = or_else (field data ''title'') (JStr ''NeoTrade Alert''),
                    n2_body = or_else (field data ''body'') (JStr ''New trade notification''),
                    n2_icon = ''/icons/icon-192.png'',
                    n2_badge = ''/icons/badge-72.png'',
                    n2_vibrate = [100, 50, 100],
                    n2_dateOfArrival = now,
                    n2_primaryKey = ''trade-notification'',
                    n2_tradeId = field data ''tradeId'',
                    n2_symbol = field data ''symbol'',
                    n2_type = field data ''type'',
                    n2_actions = [(''open'', ''Open Trade''), (''close'', ''Dismiss'')]\<rparr>)"

section \<open>Example inputs\<close>

text \<open>A worker location, and a queue of five trades of which the server accepts the
  first, the third and the fifth, cannot be reached for the second and answers the
  fourth with status 500.\<close>

definition example_base :: URL where
  "example_base = \<lparr>protocol = ''https:'', hostname = ''neotrade.app'', port = [],
     pathname = ''/service-worker.js'', search = []\<rparr>"

definition trade_key :: "string \<Rightarrow> request" where
  "trade_key i = new_Request (resolve example_base (''/api/trades/'' @ i))"

definition example_queue :: cache_storage where
  "example_queue =
     [(CACHE_NAME_sw1, []),
      (''offline-data'',
       [(trade_key ''1'', new_Response (Json (JNum 1))),
        (trade_key ''2'', new_Response (Json (JNum 2))),
        (trade_key ''3'', new_Response (Json (JNum 3))),
        (trade_key ''4'', new_Response (Json (JNum 4))),
        (trade_key ''5'', new_Response (Json (JNum 5)))])]"

definition example_server :: server where
  "example_server k d =
     (if d = JNum 2 then NetFailure
      else if d = JNum 4 then NetResponse \<lparr>status = 500, rtype = ''basic'', vary = [], body = Text ''busy''\<rparr>
      else NetResponse \<lparr>status = 200, rtype = ''basic'', vary = [], body = Json JNull\<rparr>)"

text \<open>The storage after one payload has been saved, at clock reading 1700000000000, into
  an empty cache storage.\<close>

definition example_saved :: cache_storage where
  "example_saved =
     saved_storage (saveOfflineData example_base [7] 1700000000000
       (JObj [(''type'', JStr ''trade'')]) [])"

text \<open>A network that cannot be reached, and one that answers every request with a fresh
  successful response.\<close>

definition offline :: network where
  "offline r = NetFailure"

definition fresh :: response where
  "fresh = \<lparr>status = 200, rtype = ''basic'', vary = [], body = Json (JStr ''fresh'')\<rparr>"

definition stale :: response where
  "stale = \<lparr>status = 200, rtype = ''basic'', vary = [], body = Json (JStr ''stale'')\<rparr>"

definition online :: network where
  "online r = NetResponse fresh"

text \<open>An API request that both workers treat with the network-first strategy, a page
  that both treat as a static asset, and the POST with which a trade is submitted.\<close>

definition ticker_request :: request where
  "ticker_request = new_Request \<lparr>protocol = ''https:'', hostname = ''fapi.binance.com'', port = [],
     pathname = ''/fapi/v1/ticker/24hr'', search = []\<rparr>"

definition index_request :: request where
  "index_request = new_Request (resolve example_base ''/index.html'')"

definition sync_post :: request where
  "sync_post = \<lparr>http_method = ''POST'', url = resolve example_base ''/api/trades/sync''\<rparr>"

definition ticker_cached :: cache_storage where
  "ticker_cached = [(DYNAMIC_CACHE_NAME, [(ticker_request, stale)])]"

definition index_cached :: cache_storage where
  "index_cached = [(STATIC_CACHE_NAME, [(index_request, stale)])]"

text \<open>Whether the fetch of a manifest entry fails, for \<open>addAll\<close>: the network cannot be
  reached, or the status is not ok.\<close>

definition fetch_fails :: "network \<Rightarrow> URL \<Rightarrow> bool" where
  "fetch_fails net u =
     (case net (new_Request u) of NetFailure \<Rightarrow> True | NetResponse v \<Rightarrow> \<not> ok v)"

text \<open>Whether \<open>addAll\<close> rejects because of a manifest entry: its fetch fails, or the
  response is one the cache does not accept.\<close>

definition addAll_rejects :: "network \<Rightarrow> URL \<Rightarrow> bool" where
  "addAll_rejects net u =
     (case net (new_Request u) of
        NetFailure \<Rightarrow> True
      | NetResponse v \<Rightarrow> \<not> (ok v \<and> cacheable v))"

text \<open>A network that answers every request with a partial response, status 206.\<close>

definition partial_response :: response where
  "partial_response = \<lparr>status = 206, rtype = ''basic'', vary = [], body = Json (JStr ''part'')\<rparr>"

definition ranged :: network where
  "ranged r = NetResponse partial_response"

text \<open>A network on which \<open>/manifest.json\<close> is missing and everything else is served, and
  a registration whose active worker is an earlier version.\<close>

definition manifest_missing :: network where
  "manifest_missing r =
     (if pathname (url r) = ''/manifest.json''
      then NetResponse \<lparr>status = 404, rtype = ''basic'', vary = [], body = Text ''Not Found''\<rparr>
      else NetResponse fresh)"

definition old_registration :: registration where
  "old_registration = \<lparr>active = Some ''old'', eligible = None\<rparr>"

section \<open>Decimal digits and substrings\<close>

lemma digit_range: "d < 10 \<Longrightarrow> digit d \<in> set ''0123456789''"
proof -
  assume "d < 10"
  then have "d = 0 \<or> d = 1 \<or> d = 2 \<or> d = 3 \<or> d = 4 \<or> d = 5 \<or> d = 6 \<or> d = 7 \<or> d = 8 \<or> d = 9"
    by arith
  then show ?thesis
    unfolding digit_def by (elim disjE) simp_all
qed

lemma digits_of_range: "set (digits_of n) \<subseteq> set ''0123456789''"
proof (induction n rule: digits_of.induct)
  case (1 n)
  show ?case
  proof (cases "n < 10")
    case True
    then show ?thesis using digit_range [of n] by (subst digits_of.simps) simp
  next
    case False
    have "n mod 10 < 10" by simp
    then have "digit (n mod 10) \<in> set ''0123456789''" by (rule digit_range)
    with False 1 show ?thesis by (subst digits_of.simps) simp
  qed
qed

lemma digit_inj: "a < 10 \<Longrightarrow> b < 10 \<Longrightarrow> digit a = digit b \<Longrightarrow> a = b"
proof -
  assume "a < 10" "b < 10" and e: "digit a = digit b"
  then have a: "a = 0 \<or> a = 1 \<or> a = 2 \<or> a = 3 \<or> a = 4 \<or> a = 5 \<or> a = 6 \<or> a = 7 \<or> a = 8 \<or> a = 9"
    and b: "b = 0 \<or> b = 1 \<or> b = 2 \<or> b = 3 \<or> b = 4 \<or> b = 5 \<or> b = 6 \<or> b = 7 \<or> b = 8 \<or> b = 9"
    by arith+
  from a b e show ?thesis
    unfolding digit_def by (elim disjE) simp_all
qed

lemma digits_of_nonempty: "digits_of n \<noteq> []"
  by (subst digits_of.simps) simp

lemma digits_of_inj: "digits_of n = digits_of m \<Longrightarrow> n = m"
proof (induction n arbitrary: m rule: digits_of.induct)
  case (1 n)
  show ?case
  proof (cases "n < 10")
    case n: True
    show ?thesis
    proof (cases "m < 10")
      case True
      with n 1(2) show ?thesis
        by (simp add: digits_of.simps [of n] digits_of.simps [of m] digit_inj)
    next
      case False
      with n 1(2) digits_of_nonempty [of "m div 10"] show ?thesis
        by (simp add: digits_of.simps [of n] digits_of.simps [of m])
    qed
  next
    case n: False
    show ?thesis
    proof (cases "m < 10")
      case True
      with n 1(2) digits_of_nonempty [of "n div 10"] show ?thesis
        by (simp add: digits_of.simps [of n] digits_of.simps [of m])
    next
      case False
      with n 1(2) have e: "digits_of (n div 10) = digits_of (m div 10)"
        and d: "digit (n mod 10) = digit (m mod 10)"
        by (simp_all add: digits_of.simps [of n] digits_of.simps [of m])
      from 1(1) [OF n e] have "n div 10 = m div 10" .
      moreover from d have "n mod 10 = m mod 10" by (intro digit_inj) simp_all
      ultimately show ?thesis by (metis div_mult_mod_eq)
    qed
  qed
qed

lemma includes_str_skip:
  "c \<notin> set xs \<Longrightarrow> includes_str (xs @ ys) (c # p) = includes_str ys (c # p)"
  by (induction xs) auto

lemma includes_str_none:
  "c \<notin> set xs \<Longrightarrow> \<not> includes_str xs (c # p)"
  by (induction xs) auto

lemma prefix_separator:
  "c \<notin> set u \<Longrightarrow> c \<notin> set h \<Longrightarrow> prefix (u @ c # v) (h @ c # w) \<Longrightarrow> h = u \<and> prefix v w"
proof (induction u arbitrary: h)
  case Nil
  then show ?case by (cases h) auto
next
  case (Cons a u)
  then show ?case by (cases h) auto
qed

lemma offline_path_not_trades:
  assumes h: "CHR ''/'' \<notin> set h" and dig: "set ds \<subseteq> set ''0123456789''" and p: "CHR ''/'' \<notin> set p"
  shows "\<not> includes_str (p @ ''//'' @ h @ ''/api/offline/'' @ ds) ''/api/trades''"
proof -
  have ds: "CHR ''/'' \<notin> set ds"
    using dig by auto
  have last: "\<not> prefix ''api/trades'' ds"
    using dig by (cases ds) auto
  have tail: "\<not> includes_str (''/api/offline/'' @ ds) ''/api/trades''"
    using includes_str_none [OF ds, of "''api/trades''"] last by simp
  have host: "\<not> includes_str (h @ ''/api/offline/'' @ ds) ''/api/trades''"
    using includes_str_skip [OF h, of "''/api/offline/'' @ ds" "''api/trades''"] tail by simp
  have start: "\<not> prefix ''api/trades'' (h @ ''/api/offline/'' @ ds)"
  proof
    assume "prefix ''api/trades'' (h @ ''/api/offline/'' @ ds)"
    then have "prefix (''api'' @ CHR ''/'' # ''trades'') (h @ CHR ''/'' # (''api/offline/'' @ ds))"
      by simp
    then have "h = ''api'' \<and> prefix ''trades'' (''api/offline/'' @ ds)"
      using h by (intro prefix_separator) simp_all
    then show False by simp
  qed
  have "includes_str (p @ ''//'' @ h @ ''/api/offline/'' @ ds) ''/api/trades''
      = includes_str (''//'' @ h @ ''/api/offline/'' @ ds) ''/api/trades''"
    using includes_str_skip [OF p, of "''//'' @ h @ ''/api/offline/'' @ ds" "''api/trades''"] by simp
  also have "\<dots> = False"
    using start host by simp
  finally show ?thesis by simp
qed

lemma offline_key_not_trade:
  assumes o: "wf_origin base" and k: "is_offline_key base k"
  shows "\<not> includes_str (href (url k)) ''/api/trades''"
proof -
  define ds where "ds = drop 13 (pathname (url k))"
  define h where "h = hostname base @ (if port base = [] then [] else CHR '':'' # port base)"
  have path: "pathname (url k) = ''/api/offline/'' @ ds"
    using k append_take_drop_id [of 13 "pathname (url k)"]
    unfolding is_offline_key_def ds_def by metis
  have ds: "set ds \<subseteq> set ''0123456789''"
    using k unfolding is_offline_key_def ds_def [symmetric] list_all_iff by blast
  have h: "CHR ''/'' \<notin> set h"
    using o by (simp add: wf_origin_def h_def)
  have p: "CHR ''/'' \<notin> set (protocol base)"
    using o by (simp add: wf_origin_def)
  have "href (url k) = protocol base @ ''//'' @ h @ ''/api/offline/'' @ ds"
    using k path by (simp add: href_def is_offline_key_def h_def)
  then show ?thesis
    using offline_path_not_trades [OF h ds p] by simp
qed

section \<open>Cache storage lemmas\<close>

lemma cacheable_new_Response: "cacheable (new_Response b)"
  by (simp add: cacheable_def new_Response_def)

lemma caches_open_mem: "name \<in> set (caches_keys (caches_open name s))"
  by (simp add: caches_open_def caches_keys_def)

lemma caches_get_open: "caches_get (caches_open name s) m = caches_get s m"
proof (cases "name \<in> set (caches_keys s)")
  case True
  then show ?thesis by (simp add: caches_open_def)
next
  case False
  then have "map_of s name = None"
    by (simp add: caches_keys_def map_of_eq_None_iff)
  with False show ?thesis
    by (simp add: caches_open_def caches_get_def map_add_def split: option.splits)
qed

lemma map_of_caches_set:
  "map_of (caches_set s name c) m =
     (if m = name then map_option (\<lambda>x. c) (map_of s name) else map_of s m)"
  by (induction s) (auto simp: caches_set_def)

lemma caches_get_set:
  "name \<in> set (caches_keys s) \<Longrightarrow>
     caches_get (caches_set s name c) m = (if m = name then c else caches_get s m)"
proof -
  assume "name \<in> set (caches_keys s)"
  then have "map_of s name \<noteq> None"
    by (simp add: caches_keys_def map_of_eq_None_iff)
  then obtain c0 where "map_of s name = Some c0"
    by blast
  then show ?thesis
    by (simp add: caches_get_def map_of_caches_set)
qed

lemma caches_keys_set: "caches_keys (caches_set s name c) = caches_keys s"
  by (induction s) (auto simp: caches_set_def caches_keys_def)

lemma cache_match_filter_other:
  "url k \<noteq> url r \<Longrightarrow> cache_match (filter (\<lambda>(k', v). url k' \<noteq> url k) c) r = cache_match c r"
  by (induction c) auto

lemma cache_match_delete_other:
  "url k \<noteq> url r \<Longrightarrow> cache_match (cache_delete c k) r = cache_match c r"
  by (simp add: cache_delete_def cache_match_filter_other)

lemma sync_entry_delete_other:
  "url k \<noteq> url r \<Longrightarrow>
     fst (sync_entry srv r (cache_delete c k)) = fst (sync_entry srv r c) \<and>
     fst (snd (sync_entry srv r (cache_delete c k))) = fst (snd (sync_entry srv r c))"
  by (simp add: sync_entry_def payload_of_def cache_match_delete_other
      split: option.splits content.splits sum.splits fetch_result.splits)

lemma sync_entry_cache:
  "http_method k = ''GET'' \<Longrightarrow> snd (snd (sync_entry srv k c)) =
     filter (\<lambda>(k', v). \<not> (url k' = url k \<and> is_fulfilled (fst (sync_entry srv k c)))) c"
  by (auto simp: sync_entry_def is_fulfilled_def cache_delete_def
      split: option.splits content.splits sum.splits fetch_result.splits
      intro!: filter_cong)

lemma sync_all_spec:
  "distinct (map url ks) \<Longrightarrow> \<forall>k\<in>set ks. http_method k = ''GET'' \<Longrightarrow>
   sync_all srv ks c =
     (map (\<lambda>k. fst (sync_entry srv k c)) ks,
      concat (map (\<lambda>k. fst (snd (sync_entry srv k c))) ks),
      filter (\<lambda>(k', v). \<not> (\<exists>k\<in>set ks. url k' = url k \<and> is_fulfilled (fst (sync_entry srv k c)))) c)"
proof (induction ks arbitrary: c)
  case Nil
  then show ?case by simp
next
  case (Cons k ks)
  obtain r sent c1 where e: "sync_entry srv k c = (r, sent, c1)"
    by (cases "sync_entry srv k c") auto
  have get: "http_method k = ''GET''" using Cons.prems by simp
  have c1: "c1 = filter (\<lambda>(k', v). \<not> (url k' = url k \<and> is_fulfilled r)) c"
    using sync_entry_cache [OF get, of srv c] e by simp
  have other: "\<forall>k'\<in>set ks. url k \<noteq> url k'" using Cons.prems by auto
  have same: "\<forall>k'\<in>set ks. fst (sync_entry srv k' c1) = fst (sync_entry srv k' c)
       \<and> fst (snd (sync_entry srv k' c1)) = fst (snd (sync_entry srv k' c))"
  proof
    fix k' assume k': "k' \<in> set ks"
    with other have ne: "url k \<noteq> url k'" by simp
    show "fst (sync_entry srv k' c1) = fst (sync_entry srv k' c)
       \<and> fst (snd (sync_entry srv k' c1)) = fst (snd (sync_entry srv k' c))"
    proof (cases "is_fulfilled r")
      case True
      then have "c1 = cache_delete c k" using c1 get by (simp add: cache_delete_def)
      then show ?thesis using sync_entry_delete_other [OF ne] by simp
    next
      case False
      then have "c1 = c" using c1 by simp
      then show ?thesis by simp
    qed
  qed
  have ih: "sync_all srv ks c1 =
     (map (\<lambda>k. fst (sync_entry srv k c1)) ks,
      concat (map (\<lambda>k. fst (snd (sync_entry srv k c1))) ks),
      filter (\<lambda>(k', v). \<not> (\<exists>k\<in>set ks. url k' = url k \<and> is_fulfilled (fst (sync_entry srv k c1)))) c1)"
    using Cons.IH [of c1] Cons.prems by simp
  have m1: "map (\<lambda>k. fst (sync_entry srv k c1)) ks = map (\<lambda>k. fst (sync_entry srv k c)) ks"
    using same by simp
  have m2: "map (\<lambda>k. fst (snd (sync_entry srv k c1))) ks = map (\<lambda>k. fst (snd (sync_entry srv k c))) ks"
    using same by simp
  have m3: "filter (\<lambda>(k', v). \<not> (\<exists>k\<in>set ks. url k' = url k \<and> is_fulfilled (fst (sync_entry srv k c1)))) c1
     = filter (\<lambda>(k', v). \<not> (\<exists>k\<in>set (k # ks). url k' = url k \<and> is_fulfilled (fst (sync_entry srv k c)))) c"
  proof -
    have "filter (\<lambda>(k', v). \<not> (\<exists>k\<in>set ks. url k' = url k \<and> is_fulfilled (fst (sync_entry srv k c1)))) c1
      = filter (\<lambda>(k', v). \<not> (\<exists>k\<in>set ks. url k' = url k \<and> is_fulfilled (fst (sync_entry srv k c)))) c1"
      using same by (intro filter_cong) auto
    also have "\<dots> = filter (\<lambda>(k', v). \<not> (\<exists>k\<in>set (k # ks). url k' = url k \<and> is_fulfilled (fst (sync_entry srv k c)))) c"
      unfolding c1 filter_filter using e by (intro filter_cong) auto
    finally show ?thesis .
  qed
  show ?case
    using e ih m1 m2 m3 by simp
qed

lemma wf_cache_keys:
  "wf_cache c \<Longrightarrow> distinct (map url (cache_keys c)) \<and> (\<forall>k\<in>set (cache_keys c). http_method k = ''GET'')"
proof -
  assume wf: "wf_cache c"
  have "map (\<lambda>(k, v). url k) c = map url (map fst c)"
    by (induction c) auto
  with wf show ?thesis
    by (auto simp: wf_cache_def cache_keys_def list_all_iff)
qed

lemma wf_cache_trades:
  "wf_cache c \<Longrightarrow> distinct (map url (tradeRequests (cache_keys c)))
     \<and> (\<forall>k\<in>set (tradeRequests (cache_keys c)). http_method k = ''GET'')"
  using wf_cache_keys [of c] by (auto simp: tradeRequests_def distinct_map_filter)

lemma wf_cache_same_url:
  "wf_cache c \<Longrightarrow> k \<in> set (cache_keys c) \<Longrightarrow> k' \<in> set (cache_keys c) \<Longrightarrow> url k = url k' \<Longrightarrow> k = k'"
  using wf_cache_keys [of c] by (auto simp: distinct_map inj_on_def)

lemma sync_entry_sent:
  "fst (snd (sync_entry srv k c)) = (case payload_of c k of Inl e \<Rightarrow> [] | Inr d \<Rightarrow> [d])"
  by (simp add: sync_entry_def split: sum.splits fetch_result.splits)

section \<open>The queue drain\<close>

text \<open>
  Claim C1. During a drain by \<open>syncOfflineTrades\<close> of a queue that can be read, every
  pending entry (every key of the \<open>offline-data\<close> cache whose URL contains
  \<open>/api/trades\<close>) is attempted on its own: the
  payloads that are POSTed are exactly the stored payloads of all pending entries, whatever
  the server answers to any of them; the entries that are left are those of the queue
  except the pending ones whose own round-trip is acknowledged with an ok status; and each
  connected client is sent the one message \<open>SYNC_COMPLETED {synced, total}\<close>, where
  \<open>synced\<close> counts the acknowledged entries and \<open>total\<close> the pending ones.
\<close>

theorem drain_isolates_failures:
  assumes wf: "wf_cache (caches_get s ''offline-data'')"
  shows "let q = caches_get s ''offline-data'';
             pending = tradeRequests (cache_keys q);
             synced = (\<lambda>k. is_fulfilled (fst (sync_entry srv k q)));
             out = syncOfflineTrades None srv clients s
         in sync_sent out = concat (map (\<lambda>k. case payload_of q k of Inl e \<Rightarrow> [] | Inr d \<Rightarrow> [d]) pending)
          \<and> caches_get (sync_storage out) ''offline-data''
              = filter (\<lambda>(k, v). \<not> (k \<in> set pending \<and> synced k)) q
          \<and> sync_posted out
              = broadcast clients (SYNC_COMPLETED (length (filter synced pending)) (length pending))
          \<and> sync_promise out = Fulfilled ()"
proof -
  define q where "q = caches_get s ''offline-data''"
  define pending where "pending = tradeRequests (cache_keys q)"
  define s1 where "s1 = caches_open ''offline-data'' s"
  have q1: "caches_get s1 ''offline-data'' = q"
    by (simp add: s1_def q_def caches_get_open)
  have wfq: "wf_cache q" using wf by (simp add: q_def)
  have all: "sync_all srv pending q =
     (map (\<lambda>k. fst (sync_entry srv k q)) pending,
      concat (map (\<lambda>k. fst (snd (sync_entry srv k q))) pending),
      filter (\<lambda>(k', v). \<not> (\<exists>k\<in>set pending. url k' = url k \<and> is_fulfilled (fst (sync_entry srv k q)))) q)"
    unfolding pending_def using wf_cache_trades [OF wfq] by (intro sync_all_spec) simp_all
  have sub: "set pending \<subseteq> set (cache_keys q)"
    by (auto simp: pending_def tradeRequests_def)
  have left: "filter (\<lambda>(k', v). \<not> (\<exists>k\<in>set pending. url k' = url k \<and> is_fulfilled (fst (sync_entry srv k q)))) q
     = filter (\<lambda>(k, v). \<not> (k \<in> set pending \<and> is_fulfilled (fst (sync_entry srv k q)))) q"
  proof (intro filter_cong refl)
    fix e assume e: "e \<in> set q"
    obtain k' v where kv: "e = (k', v)" by (cases e)
    with e have mem: "k' \<in> set (cache_keys q)" by (force simp: cache_keys_def)
    have "(\<exists>k\<in>set pending. url k' = url k \<and> is_fulfilled (fst (sync_entry srv k q)))
        = (k' \<in> set pending \<and> is_fulfilled (fst (sync_entry srv k' q)))"
      using wf_cache_same_url [OF wfq _ mem] sub by (metis subsetD)
    then have "(\<not> (\<exists>k\<in>set pending. url k' = url k \<and> is_fulfilled (fst (sync_entry srv k q))))
        = (\<not> (k' \<in> set pending \<and> is_fulfilled (fst (sync_entry srv k' q))))"
      by (rule arg_cong)
    then show "(case e of (k', v) \<Rightarrow> \<not> (\<exists>k\<in>set pending. url k' = url k \<and> is_fulfilled (fst (sync_entry srv k q))))
       = (case e of (k, v) \<Rightarrow> \<not> (k \<in> set pending \<and> is_fulfilled (fst (sync_entry srv k q))))"
      unfolding kv prod.case .
  qed
  have cnt: "length (filter is_fulfilled (map (\<lambda>k. fst (sync_entry srv k q)) pending))
      = length (filter (\<lambda>k. is_fulfilled (fst (sync_entry srv k q))) pending)"
    by (simp add: filter_map comp_def)
  have mem: "''offline-data'' \<in> set (caches_keys s1)"
    unfolding s1_def by (rule caches_open_mem)
  show ?thesis
    unfolding Let_def syncOfflineTrades_def q_def [symmetric] s1_def [symmetric] q1
      pending_def [symmetric]
    using all left cnt mem
    by (simp add: caches_get_set sync_entry_sent)
qed

theorem drain_isolates_failures_witness:
  "wf_cache (caches_get example_queue ''offline-data'')
   \<and> sync_sent (syncOfflineTrades None example_server [7, 8] example_queue)
       = [JNum 1, JNum 2, JNum 3, JNum 4, JNum 5]
   \<and> cache_keys (caches_get (sync_storage (syncOfflineTrades None example_server [7, 8] example_queue))
         ''offline-data'') = [trade_key ''2'', trade_key ''4'']
   \<and> sync_posted (syncOfflineTrades None example_server [7, 8] example_queue)
       = [(7, SYNC_COMPLETED 3 5), (8, SYNC_COMPLETED 3 5)]"
proof -
  have h: "wf_cache (caches_get example_queue ''offline-data'')"
    by (simp add: wf_cache_def caches_get_def example_queue_def trade_key_def new_Request_def
        resolve_def example_base_def CACHE_NAME_sw1_def)
  show ?thesis
    using h drain_isolates_failures [OF h, of example_server "[7, 8]"]
    by (simp add: Let_def caches_get_def example_queue_def trade_key_def new_Request_def
        new_Response_def resolve_def example_base_def CACHE_NAME_sw1_def cache_keys_def
        tradeRequests_def href_def payload_of_def sync_entry_def example_server_def ok_def
        is_fulfilled_def broadcast_def)
qed

lemma tradeRequests_offline:
  assumes o: "wf_origin base" and ks: "list_all (is_offline_key base) ks"
  shows "tradeRequests ks = []"
  unfolding tradeRequests_def filter_empty_conv
  using o ks offline_key_not_trade by (auto simp: list_all_iff)

lemma caches_get_set_same:
  "caches_get (caches_set s name (caches_get s name)) m = caches_get s m"
proof (cases "name \<in> set (caches_keys s)")
  case True
  then show ?thesis by (simp add: caches_get_set)
next
  case False
  then have "caches_set s name c = s" for c
    unfolding caches_set_def caches_keys_def by (induction s) auto
  then show ?thesis by simp
qed

lemma cache_match_put:
  "http_method r = ''GET'' \<Longrightarrow> cache_put c r v = Inr c' \<Longrightarrow> cache_match c' r = Some v"
proof -
  have gen: "http_method r = ''GET'' \<Longrightarrow>
      cache_match (filter (\<lambda>(k, v). url k \<noteq> url r) c @ [(r, v)]) r = Some v" for c
    by (induction c) auto
  assume "http_method r = ''GET''" and "cache_put c r v = Inr c'"
  with gen show ?thesis by (auto simp: cache_put_def split: if_splits)
qed

lemma saved_key_is_offline:
  "is_offline_key base (new_Request (resolve base (''/api/offline/'' @ digits_of now)))"
  using digits_of_range [of now]
  by (simp add: is_offline_key_def new_Request_def resolve_def list_all_iff subset_iff)

lemma digits_example: "digits_of 1700000000000 = ''1700000000000''"
  by (simp add: digits_of.simps digit_def)

lemma digits_example2: "digits_of 1700000000001 = ''1700000000001''"
  by (simp add: digits_of.simps digit_def)

lemma example_saved_eval:
  "example_saved = [(''offline-data'',
      [(\<lparr>http_method = ''GET'', url = \<lparr>protocol = ''https:'', hostname = ''neotrade.app'', port = [],
           pathname = ''/api/offline/1700000000000'', search = []\<rparr>\<rparr>,
        \<lparr>status = 200, rtype = ''default'', vary = [], body = Json (JObj [(''type'', JStr ''trade'')])\<rparr>)])]"
  by (simp add: example_saved_def saveOfflineData_def Let_def caches_open_def caches_keys_def
      caches_get_def caches_set_def cache_put_def cacheable_def new_Request_def new_Response_def resolve_def
      example_base_def digits_example digits_example2)

section \<open>Saved offline data and the drain\<close>

text \<open>
  Claim C4. \<open>saveOfflineData\<close> stores the payload under the URL
  \<open>/api/offline/<timestamp>\<close> on the worker's origin, and no URL of that form contains
  \<open>/api/trades\<close>, which is what the drain selects by. So whenever the \<open>offline-data\<close>
  cache holds only entries of that form (a property that every further save keeps), a
  drain POSTs nothing, sends \<open>SYNC_COMPLETED {synced: 0, total: 0}\<close> to every client and
  leaves the entries of every cache as they were.
\<close>

theorem offline_entries_never_drained:
  assumes o: "wf_origin base"
    and inv: "list_all (is_offline_key base) (cache_keys (caches_get s ''offline-data''))"
  shows "let key = new_Request (resolve base (''/api/offline/'' @ digits_of now));
             saved = saved_storage (saveOfflineData base clients now data s);
             out = syncOfflineTrades None srv clients s
         in href (url key) = href (resolve base []) @ ''/api/offline/'' @ digits_of now
          \<and> cache_match (caches_get saved ''offline-data'') key = Some (new_Response (Json data))
          \<and> list_all (is_offline_key base) (cache_keys (caches_get saved ''offline-data''))
          \<and> sync_sent out = []
          \<and> sync_posted out = broadcast clients (SYNC_COMPLETED 0 0)
          \<and> (\<forall>name. caches_get (sync_storage out) name = caches_get s name)"
proof -
  define key where "key = new_Request (resolve base (''/api/offline/'' @ digits_of now))"
  define s1 where "s1 = caches_open ''offline-data'' s"
  define q where "q = caches_get s ''offline-data''"
  have q1: "caches_get s1 ''offline-data'' = q"
    by (simp add: s1_def q_def caches_get_open)
  have get: "http_method key = ''GET''"
    by (simp add: key_def new_Request_def)
  have mem: "''offline-data'' \<in> set (caches_keys s1)"
    unfolding s1_def by (rule caches_open_mem)
  obtain c where put: "cache_put q key (new_Response (Json data)) = Inr c"
    using get by (simp add: cache_put_def cacheable_new_Response)
  have saved: "caches_get (saved_storage (saveOfflineData base clients now data s)) ''offline-data'' = c"
    using put mem
    unfolding saveOfflineData_def Let_def s1_def [symmetric] key_def [symmetric] q1
    by (simp add: caches_get_set)
  have form: "href (url key) = href (resolve base []) @ ''/api/offline/'' @ digits_of now"
    by (simp add: key_def new_Request_def resolve_def href_def)
  have stored: "cache_match c key = Some (new_Response (Json data))"
    using get put by (rule cache_match_put)
  have keys: "set (cache_keys c) \<subseteq> insert key (set (cache_keys q))"
    using put get by (auto simp: cache_put_def cache_keys_def split: if_splits)
  have closed: "list_all (is_offline_key base) (cache_keys c)"
    using keys inv saved_key_is_offline [of base now]
    unfolding q_def [symmetric] key_def [symmetric] list_all_iff by blast
  have none: "tradeRequests (cache_keys q) = []"
    using o inv unfolding q_def by (rule tradeRequests_offline)
  have drain: "syncOfflineTrades None srv clients s =
      \<lparr>sync_storage = caches_set s1 ''offline-data'' (caches_get s1 ''offline-data''),
       sync_posted = broadcast clients (SYNC_COMPLETED 0 0), sync_sent = [],
       sync_promise = Fulfilled ()\<rparr>"
    by (simp add: syncOfflineTrades_def Let_def s1_def [symmetric] q1 none)
  have same: "caches_get (sync_storage (syncOfflineTrades None srv clients s)) name = caches_get s name"
    for name
    unfolding drain by (simp add: caches_get_set_same) (simp add: s1_def caches_get_open)
  show ?thesis
    unfolding Let_def key_def [symmetric] saved
    using form stored closed same by (simp add: drain)
qed

theorem offline_entries_never_drained_witness:
  "wf_origin example_base
   \<and> list_all (is_offline_key example_base) (cache_keys (caches_get example_saved ''offline-data''))
   \<and> length (caches_get (saved_storage (saveOfflineData example_base [7] 1700000000001 JNull example_saved))
        ''offline-data'') = 2
   \<and> sync_sent (syncOfflineTrades None example_server [7] example_saved) = []
   \<and> sync_posted (syncOfflineTrades None example_server [7] example_saved) = [(7, SYNC_COMPLETED 0 0)]
   \<and> caches_get (sync_storage (syncOfflineTrades None example_server [7] example_saved)) ''offline-data''
       = caches_get example_saved ''offline-data''"
proof -
  have o: "wf_origin example_base"
    by (simp add: wf_origin_def example_base_def)
  have inv: "list_all (is_offline_key example_base) (cache_keys (caches_get example_saved ''offline-data''))"
    by (simp add: example_saved_eval caches_get_def cache_keys_def is_offline_key_def example_base_def)
  have two: "length (caches_get (saved_storage (saveOfflineData example_base [7] 1700000000001 JNull example_saved))
        ''offline-data'') = 2"
    by (simp add: example_saved_eval saveOfflineData_def Let_def caches_open_def caches_keys_def
      caches_get_def caches_set_def cache_put_def cacheable_def new_Request_def new_Response_def resolve_def
      example_base_def digits_example digits_example2)
  show ?thesis
    using o inv two offline_entries_never_drained [OF o inv, of 1700000000001 "[7]" JNull example_server]
    by (simp add: Let_def broadcast_def)
qed

section \<open>Network first\<close>

text \<open>
  Claim C2, as amended. For every request that a worker handles with the network-first
  strategy and whose network fetch fails, the promise handed to \<open>respondWith\<close> is fulfilled
  with the result of \<open>caches.match\<close>: the cached response when an entry exists for the
  request, and \<open>undefined\<close> when none exists. The rejection of the fetch is caught and not
  passed on; it is the browser that turns the \<open>undefined\<close> into a network error for the
  page. The cache storage is left as it was.
\<close>

theorem network_first_fallback:
  assumes down: "net r = NetFailure"
  shows "(is_api_sw1 r \<longrightarrow>
            responded (fetch_sw1 net r s) = RespondWith (Fulfilled (caches_match s r))
          \<and> fetch_storage (fetch_sw1 net r s) = s)
       \<and> (http_method r = ''GET'' \<and> is_api_sw2 r \<longrightarrow>
            responded (fetch_sw2 net r s) = RespondWith (Fulfilled (caches_match s r))
          \<and> fetch_storage (fetch_sw2 net r s) = s)
       \<and> delivered net r (RespondWith (Fulfilled (caches_match s r)))
            = (case caches_match s r of Some v \<Rightarrow> NetResponse v | None \<Rightarrow> NetFailure)"
  using down by (simp add: fetch_sw1_def fetch_sw2_def delivered_def split: option.splits)

theorem network_first_fallback_witness:
  "offline ticker_request = NetFailure
   \<and> is_api_sw1 ticker_request
   \<and> http_method ticker_request = ''GET'' \<and> is_api_sw2 ticker_request
   \<and> responded (fetch_sw1 offline ticker_request ticker_cached) = RespondWith (Fulfilled (Some stale))
   \<and> responded (fetch_sw2 offline ticker_request ticker_cached) = RespondWith (Fulfilled (Some stale))
   \<and> delivered offline ticker_request (RespondWith (Fulfilled (Some stale))) = NetResponse stale"
proof -
  have down: "offline ticker_request = NetFailure"
    by (simp add: offline_def)
  have api1: "is_api_sw1 ticker_request"
    by (simp add: is_api_sw1_def ticker_request_def new_Request_def)
  have get: "http_method ticker_request = ''GET''"
    by (simp add: ticker_request_def new_Request_def)
  have api2: "is_api_sw2 ticker_request"
    by (simp add: is_api_sw2_def ticker_request_def new_Request_def)
  have hit: "caches_match ticker_cached ticker_request = Some stale"
    by (simp add: ticker_cached_def get)
  show ?thesis
    using down api1 get api2 hit network_first_fallback [of offline ticker_request ticker_cached]
    by simp
qed

text \<open>
  Claim C2 as stated says that, without a cached entry, the failure is passed on rather
  than an undefined result. With an empty cache storage and an unreachable network both
  listeners fulfil their promise with \<open>undefined\<close>.
\<close>

theorem network_first_undefined_counterexample:
  "is_api_sw1 ticker_request
   \<and> offline ticker_request = NetFailure
   \<and> caches_match [] ticker_request = None
   \<and> responded (fetch_sw1 offline ticker_request []) = RespondWith (Fulfilled None)
   \<and> responded (fetch_sw2 offline ticker_request []) = RespondWith (Fulfilled None)"
  by (simp add: fetch_sw1_def fetch_sw2_def is_api_sw1_def is_api_sw2_def offline_def
      ticker_request_def new_Request_def)

section \<open>Activation\<close>

text \<open>What activation leaves: \<^verbatim>\<open>service-worker.js\<close> keeps the cache named \<open>CACHE_NAME\<close> and
  nothing else, \<^verbatim>\<open>sw.js\<close> keeps its static and dynamic caches and nothing else; the
  listener of \<^verbatim>\<open>service-worker.js\<close> claims the clients after the last deletion.\<close>

lemma fold_caches_delete:
  "fold (\<lambda>cacheName s1. caches_delete s1 cacheName) names s = filter (\<lambda>(n, c). n \<notin> set names) s"
proof (induction names arbitrary: s)
  case Nil
  then show ?case by simp
next
  case (Cons a names)
  have "filter (\<lambda>(n, c). n \<notin> set names) (caches_delete s a) = filter (\<lambda>(n, c). n \<notin> set (a # names)) s"
    unfolding caches_delete_def filter_filter by (intro filter_cong) auto
  with Cons show ?case by simp
qed

lemma activate_sw1_storage:
  "activate_storage (activate_sw1 s) = filter (\<lambda>(n, c). n = CACHE_NAME_sw1) s"
  unfolding activate_sw1_def Let_def
  by (simp add: fold_caches_delete caches_keys_def) (intro filter_cong, force+)

lemma activate_sw2_storage:
  "activate_storage (activate_sw2 s) = filter (\<lambda>(n, c). n = STATIC_CACHE_NAME \<or> n = DYNAMIC_CACHE_NAME) s"
  unfolding activate_sw2_def Let_def
  by (simp add: fold_caches_delete caches_keys_def) (intro filter_cong, force+)

lemma cleanup_before_claim_deleted:
  "cleanup_before_claim (map Deleted names @ [Claimed])"
  by (induction names) auto

lemma activate_sw1_claims_last:
  "cleanup_before_claim (activate_trace (activate_sw1 s))"
  by (simp add: activate_sw1_def Let_def cleanup_before_claim_deleted)

text \<open>
  Claim C3 says that the offline-trade queue survives activation. The queue lives in the
  cache \<open>offline-data\<close>, whose name is not \<open>CACHE_NAME\<close>: the activate listener of
  \<^verbatim>\<open>service-worker.js\<close> deletes it with the caches of earlier versions. Here a queue of
  five trades is gone after activation.
\<close>

theorem activation_deletes_offline_queue:
  "cache_keys (caches_get example_queue ''offline-data'')
     = [trade_key ''1'', trade_key ''2'', trade_key ''3'', trade_key ''4'', trade_key ''5'']
   \<and> caches_keys (activate_storage (activate_sw1 example_queue)) = [CACHE_NAME_sw1]
   \<and> caches_get (activate_storage (activate_sw1 example_queue)) ''offline-data'' = []
   \<and> caches_keys (activate_storage (activate_sw2 example_queue)) = []"
  by (simp add: activate_sw1_storage activate_sw2_storage example_queue_def caches_get_def
      cache_keys_def caches_keys_def CACHE_NAME_sw1_def STATIC_CACHE_NAME_def DYNAMIC_CACHE_NAME_def)

text \<open>
  Claim C8 says that the cleanup is complete before the worker takes control of the open
  pages. \<^verbatim>\<open>service-worker.js\<close> issues \<open>clients.claim()\<close> after the deletions;
  \<^verbatim>\<open>sw.js\<close> issues it before the first of them.
\<close>

theorem claim_before_cleanup_sw2:
  "activate_trace (activate_sw2 example_queue)
     = [Claimed, Deleted ''neotrade-v1.0.0'', Deleted ''offline-data'']
   \<and> \<not> cleanup_before_claim (activate_trace (activate_sw2 example_queue))
   \<and> activate_trace (activate_sw1 example_queue) = [Deleted ''offline-data'', Claimed]
   \<and> cleanup_before_claim (activate_trace (activate_sw1 example_queue))"
  by (simp add: activate_sw1_def activate_sw2_def Let_def example_queue_def
      caches_keys_def CACHE_NAME_sw1_def STATIC_CACHE_NAME_def DYNAMIC_CACHE_NAME_def)

section \<open>Push payloads\<close>

text \<open>The listener of \<^verbatim>\<open>service-worker.js\<close> shows a payload that is not JSON as the body
  of a notification titled \<open>NeoTrade\<close>.\<close>

lemma push_plain_text_sw1:
  "push_sw1 (Some (Text t)) =
     Inr \<lparr>n1_title = JStr ''NeoTrade'', n1_body = Some (JStr t), n1_icon = JStr ''/icon-192.png'',
          n1_badge = ''/badge-72.png'', n1_vibrate = [100, 50, 100], n1_data = JObj [],
          n1_actions = [(''view-trade'', ''View Trade''), (''dismiss'', ''Dismiss'')],
          n1_requireInteraction = True\<rparr>"
  by (simp add: push_sw1_def show_sw1_def or_else_def)

text \<open>
  Claim C10 says that a push payload that is not valid JSON gives a plain-text
  notification instead of a failure. The listener of \<^verbatim>\<open>sw.js\<close> calls
  \<open>event.data.json()\<close> outside any \<open>try\<close> and throws the SyntaxError; the listener of
  \<^verbatim>\<open>service-worker.js\<close> shows the text.
\<close>

theorem push_plain_text_fails_sw2:
  "push_sw2 1700000000000 (Some (Text ''BTCUSDT filled'')) = Inl SyntaxError
   \<and> push_sw1 (Some (Text ''BTCUSDT filled'')) =
     Inr \<lparr>n1_title = JStr ''NeoTrade'', n1_body = Some (JStr ''BTCUSDT filled''),
          n1_icon = JStr ''/icon-192.png'',
          n1_badge = ''/badge-72.png'', n1_vibrate = [100, 50, 100], n1_data = JObj [],
          n1_actions = [(''view-trade'', ''View Trade''), (''dismiss'', ''Dismiss'')],
          n1_requireInteraction = True\<rparr>"
  by (simp add: push_sw2_def push_sw1_def show_sw1_def or_else_def)

section \<open>Requests that are not GET\<close>

lemma cache_match_not_get: "http_method r \<noteq> ''GET'' \<Longrightarrow> cache_match c r = None"
  by (induction c) auto

lemma caches_match_not_get: "http_method r \<noteq> ''GET'' \<Longrightarrow> caches_match s r = None"
  by (induction s) (auto simp: cache_match_not_get)

lemma caches_match_get: "caches_match s r = Some v \<Longrightarrow> http_method r = ''GET''"
  using caches_match_not_get [of r s] by auto

lemma open_and_put_not_get:
  "http_method r \<noteq> ''GET'' \<Longrightarrow> open_and_put name r v s = caches_open name s"
  by (simp add: open_and_put_def cache_put_def)

lemma open_and_put_rejected:
  "\<not> cacheable v \<Longrightarrow> open_and_put name r v s = caches_open name s"
  by (simp add: open_and_put_def cache_put_def)

lemma open_and_put_match:
  "http_method r = ''GET'' \<Longrightarrow> cacheable v \<Longrightarrow>
     cache_match (caches_get (open_and_put name r v s) name) r = Some v"
proof -
  assume get: "http_method r = ''GET''" and acc: "cacheable v"
  define s1 where "s1 = caches_open name s"
  obtain c where put: "cache_put (caches_get s1 name) r v = Inr c"
    using get acc by (simp add: cache_put_def)
  have "name \<in> set (caches_keys s1)"
    unfolding s1_def by (rule caches_open_mem)
  then have "caches_get (open_and_put name r v s) name = c"
    unfolding open_and_put_def Let_def s1_def [symmetric] using put by (simp add: caches_get_set)
  then show ?thesis
    using cache_match_put [OF get put] by simp
qed

text \<open>\<^verbatim>\<open>sw.js\<close> returns from its listener for every request that is not GET. In
  \<^verbatim>\<open>service-worker.js\<close> such a request runs through the strategies; the Cache API finds
  and stores nothing for it, so the page receives what the network answers and no entry of
  any cache changes.\<close>

lemma non_get_sw2:
  "http_method r \<noteq> ''GET'' \<Longrightarrow>
     fetch_sw2 net r s = \<lparr>responded = NotIntercepted, fetched = [], awaited = [], fetch_storage = s\<rparr>"
  by (simp add: fetch_sw2_def)

lemma non_get_sw1_delivered:
  "http_method r \<noteq> ''GET'' \<Longrightarrow> delivered net r (responded (fetch_sw1 net r s)) = net r
     \<and> (\<forall>name. caches_get (fetch_storage (fetch_sw1 net r s)) name = caches_get s name)"
  by (auto simp: fetch_sw1_def delivered_def caches_match_not_get open_and_put_not_get caches_get_open
      split: fetch_result.splits)

text \<open>
  Claim C5 says that a request whose method is not read-only passes straight to the
  network with no interception by either strategy. \<^verbatim>\<open>sw.js\<close> has the guard
  \<open>if (event.request.method !== 'GET') return\<close>; \<^verbatim>\<open>service-worker.js\<close> has none, and for
  the POST of a trade its network-first branch calls \<open>respondWith\<close>, fetches the request
  itself, opens the cache (creating it) and calls \<open>cache.put\<close>, which rejects the request
  with a TypeError.
\<close>

theorem non_get_intercepted_sw1:
  "http_method sync_post \<noteq> ''GET''
   \<and> responded (fetch_sw2 online sync_post []) = NotIntercepted
   \<and> is_api_sw1 sync_post
   \<and> responded (fetch_sw1 online sync_post []) = RespondWith (Fulfilled (Some fresh))
   \<and> fetched (fetch_sw1 online sync_post []) = [sync_post]
   \<and> cache_put [] sync_post fresh = Inl TypeError
   \<and> fetch_storage (fetch_sw1 online sync_post []) = [(CACHE_NAME_sw1, [])]"
  by (simp add: fetch_sw1_def fetch_sw2_def is_api_sw1_def sync_post_def online_def fresh_def
      resolve_def example_base_def open_and_put_def cache_put_def caches_open_def caches_keys_def
      caches_get_def Let_def)

theorem non_get_intercepted_sw1_witness:
  "responded (fetch_sw1 online sync_post []) \<noteq> NotIntercepted
   \<and> responded (fetch_sw2 online sync_post []) = NotIntercepted
   \<and> caches_keys (fetch_storage (fetch_sw1 online sync_post [])) = [CACHE_NAME_sw1]"
  using non_get_intercepted_sw1 by (simp add: caches_keys_def)

section \<open>Cache first\<close>

text \<open>
  Claim C6, as amended. For every request that a worker treats as a static asset and for
  which \<open>caches.match\<close> finds an entry, that entry is what the listener responds with,
  and the response waits for no fetch: the chain handed to \<open>respondWith\<close> contains none.
  \<^verbatim>\<open>sw.js\<close> also sends the request to the network once, in the background, dropping the
  promise. When that fetch yields an ok response that the cache accepts (not status 206,
  no \<open>Vary: *\<close>), the response becomes the entry of the static cache for the request; when
  it yields an ok response that the cache rejects, every cache keeps the entries it had;
  when it fails or yields a status that is not ok, the cache storage is as it was.
  \<^verbatim>\<open>service-worker.js\<close> sends nothing to the network and leaves the cache storage as it
  was.
\<close>

theorem static_cache_first:
  assumes hit: "caches_match s r = Some cached"
  shows "(\<not> is_api_sw2 r \<longrightarrow>
            responded (fetch_sw2 net r s) = RespondWith (Fulfilled (Some cached))
          \<and> awaited (fetch_sw2 net r s) = []
          \<and> fetched (fetch_sw2 net r s) = [r]
          \<and> (case net r of
                NetResponse v \<Rightarrow>
                  if ok v then
                    (if cacheable v then
                       cache_match (caches_get (fetch_storage (fetch_sw2 net r s)) STATIC_CACHE_NAME) r
                         = Some v
                     else (\<forall>name. caches_get (fetch_storage (fetch_sw2 net r s)) name = caches_get s name))
                  else fetch_storage (fetch_sw2 net r s) = s
              | NetFailure \<Rightarrow> fetch_storage (fetch_sw2 net r s) = s))
       \<and> (\<not> is_api_sw1 r \<longrightarrow>
            responded (fetch_sw1 net r s) = RespondWith (Fulfilled (Some cached))
          \<and> awaited (fetch_sw1 net r s) = []
          \<and> fetched (fetch_sw1 net r s) = []
          \<and> fetch_storage (fetch_sw1 net r s) = s)"
proof -
  have get: "http_method r = ''GET''"
    using hit by (rule caches_match_get)
  show ?thesis
    using hit get
    by (simp add: fetch_sw1_def fetch_sw2_def open_and_put_match open_and_put_rejected
        caches_get_open split: fetch_result.splits)
qed

theorem static_cache_first_witness:
  "caches_match index_cached index_request = Some stale
   \<and> \<not> is_api_sw2 index_request \<and> \<not> is_api_sw1 index_request
   \<and> responded (fetch_sw2 online index_request index_cached) = RespondWith (Fulfilled (Some stale))
   \<and> awaited (fetch_sw2 online index_request index_cached) = []
   \<and> fetched (fetch_sw2 online index_request index_cached) = [index_request]
   \<and> cache_match (caches_get (fetch_storage (fetch_sw2 online index_request index_cached)) STATIC_CACHE_NAME)
        index_request = Some fresh
   \<and> ok partial_response
   \<and> cache_match (caches_get (fetch_storage (fetch_sw2 ranged index_request index_cached)) STATIC_CACHE_NAME)
        index_request = Some stale
   \<and> fetched (fetch_sw1 online index_request index_cached) = []"
proof -
  have hit: "caches_match index_cached index_request = Some stale"
    by (simp add: index_cached_def index_request_def new_Request_def)
  have s2: "\<not> is_api_sw2 index_request"
    by (simp add: is_api_sw2_def index_request_def new_Request_def resolve_def example_base_def)
  have s1: "\<not> is_api_sw1 index_request"
    by (simp add: is_api_sw1_def index_request_def new_Request_def resolve_def example_base_def)
  have okf: "ok fresh" and accf: "cacheable fresh"
    by (simp_all add: ok_def cacheable_def fresh_def)
  have okp: "ok partial_response" and accp: "\<not> cacheable partial_response"
    by (simp_all add: ok_def cacheable_def partial_response_def)
  have before: "cache_match (caches_get index_cached STATIC_CACHE_NAME) index_request = Some stale"
    by (simp add: index_cached_def caches_get_def index_request_def new_Request_def)
  show ?thesis
    using hit s1 s2 okf accf okp accp before
      static_cache_first [OF hit, of online] static_cache_first [OF hit, of ranged]
    by (simp add: online_def ranged_def)
qed

text \<open>
  Claim C6 as stated has every static-asset request with a cached entry refreshed in the
  background. In \<^verbatim>\<open>service-worker.js\<close>, with a stale entry cached and a network that would
  answer with a fresh ok response, nothing is fetched and the entry stays stale.
\<close>

theorem no_background_refresh_sw1_counterexample:
  "\<not> is_api_sw1 index_request
   \<and> caches_match index_cached index_request = Some stale
   \<and> online index_request = NetResponse fresh
   \<and> ok fresh
   \<and> responded (fetch_sw1 online index_request index_cached) = RespondWith (Fulfilled (Some stale))
   \<and> fetched (fetch_sw1 online index_request index_cached) = []
   \<and> caches_match (fetch_storage (fetch_sw1 online index_request index_cached)) index_request = Some stale"
  by (simp add: fetch_sw1_def is_api_sw1_def index_request_def new_Request_def resolve_def
      example_base_def index_cached_def online_def ok_def fresh_def)

section \<open>Enqueueing\<close>

lemma cache_match_put_other:
  "url r' \<noteq> url r \<Longrightarrow> cache_put c r v = Inr c' \<Longrightarrow> cache_match c' r' = cache_match c r'"
proof -
  have gen: "url r' \<noteq> url r \<Longrightarrow>
      cache_match (filter (\<lambda>(k, v). url k \<noteq> url r) c @ [(r, v)]) r' = cache_match c r'" for c
    by (induction c) auto
  assume "url r' \<noteq> url r" and "cache_put c r v = Inr c'"
  with gen show ?thesis by (auto simp: cache_put_def split: if_splits)
qed

lemma saved_queue:
  "\<exists>c. cache_put (caches_get s ''offline-data'')
            (new_Request (resolve base (''/api/offline/'' @ digits_of now))) (new_Response (Json data)) = Inr c
      \<and> caches_get (saved_storage (saveOfflineData base clients now data s)) ''offline-data'' = c"
proof -
  define key where "key = new_Request (resolve base (''/api/offline/'' @ digits_of now))"
  define s1 where "s1 = caches_open ''offline-data'' s"
  have q1: "caches_get s1 ''offline-data'' = caches_get s ''offline-data''"
    by (simp add: s1_def caches_get_open)
  have get: "http_method key = ''GET''"
    by (simp add: key_def new_Request_def)
  have mem: "''offline-data'' \<in> set (caches_keys s1)"
    unfolding s1_def by (rule caches_open_mem)
  obtain c where put: "cache_put (caches_get s ''offline-data'') key (new_Response (Json data)) = Inr c"
    using get by (simp add: cache_put_def cacheable_new_Response)
  have "caches_get (saved_storage (saveOfflineData base clients now data s)) ''offline-data'' = c"
    using put mem
    unfolding saveOfflineData_def Let_def s1_def [symmetric] key_def [symmetric] q1
    by (simp add: caches_get_set)
  with put show ?thesis unfolding key_def by blast
qed

lemma offline_url_inj:
  "url (new_Request (resolve base (''/api/offline/'' @ digits_of a)))
     = url (new_Request (resolve base (''/api/offline/'' @ digits_of b))) \<Longrightarrow> a = b"
proof -
  assume "url (new_Request (resolve base (''/api/offline/'' @ digits_of a)))
     = url (new_Request (resolve base (''/api/offline/'' @ digits_of b)))"
  then have "pathname (resolve base (''/api/offline/'' @ digits_of a))
     = pathname (resolve base (''/api/offline/'' @ digits_of b))"
    by (simp add: new_Request_def)
  then have "digits_of a = digits_of b"
    by (simp add: resolve_def)
  then show ?thesis by (rule digits_of_inj)
qed

text \<open>
  Claim C7, as amended. The id that \<open>saveOfflineData\<close> assigns is the reading of the clock
  at the call. For every pair of enqueue operations with payloads other than \<open>null\<close> and
  with different clock readings, each enqueue sends \<open>OFFLINE_DATA_SAVED\<close> with its own
  clock reading as id to every connected client, and after both enqueues each payload is
  stored in the queue under \<open>/api/offline/<id>\<close>. The ids are thus distinct, and
  non-decreasing in enqueue order, exactly when the clock readings are.
\<close>

theorem enqueue_id_is_clock_reading:
  assumes payload: "data1 \<noteq> JNull" "data2 \<noteq> JNull"
    and clock: "now1 \<noteq> now2"
  shows "let first = saveOfflineData base clients now1 data1 s;
             second = saveOfflineData base clients now2 data2 (saved_storage first);
             queue = caches_get (saved_storage second) ''offline-data''
         in saved_posted first = broadcast clients (OFFLINE_DATA_SAVED now1 (field data1 ''type''))
          \<and> saved_posted second = broadcast clients (OFFLINE_DATA_SAVED now2 (field data2 ''type''))
          \<and> cache_match queue (new_Request (resolve base (''/api/offline/'' @ digits_of now1)))
               = Some (new_Response (Json data1))
          \<and> cache_match queue (new_Request (resolve base (''/api/offline/'' @ digits_of now2)))
               = Some (new_Response (Json data2))"
proof -
  define k1 where "k1 = new_Request (resolve base (''/api/offline/'' @ digits_of now1))"
  define k2 where "k2 = new_Request (resolve base (''/api/offline/'' @ digits_of now2))"
  define s1 where "s1 = saved_storage (saveOfflineData base clients now1 data1 s)"
  define s2 where "s2 = saved_storage (saveOfflineData base clients now2 data2 s1)"
  obtain c1 where put1: "cache_put (caches_get s ''offline-data'') k1 (new_Response (Json data1)) = Inr c1"
    and q1: "caches_get s1 ''offline-data'' = c1"
    using saved_queue [of s base now1 data1 clients] unfolding k1_def s1_def by blast
  obtain c2 where put2: "cache_put c1 k2 (new_Response (Json data2)) = Inr c2"
    and q2: "caches_get s2 ''offline-data'' = c2"
    using saved_queue [of s1 base now2 data2 clients] unfolding k2_def s2_def q1 by blast
  have get1: "http_method k1 = ''GET''" and get2: "http_method k2 = ''GET''"
    by (simp_all add: k1_def k2_def new_Request_def)
  have ne: "url k1 \<noteq> url k2"
    using clock offline_url_inj [of base now1 now2] unfolding k1_def k2_def by blast
  have m1: "cache_match c1 k1 = Some (new_Response (Json data1))"
    using get1 put1 by (rule cache_match_put)
  have m1': "cache_match c2 k1 = Some (new_Response (Json data1))"
    using cache_match_put_other [OF ne put2] m1 by simp
  have m2: "cache_match c2 k2 = Some (new_Response (Json data2))"
    using get2 put2 by (rule cache_match_put)
  have p1: "saved_posted (saveOfflineData base clients now1 data1 s)
      = broadcast clients (OFFLINE_DATA_SAVED now1 (field data1 ''type''))"
    using payload by (simp add: saveOfflineData_def Let_def)
  have p2: "saved_posted (saveOfflineData base clients now2 data2 s1)
      = broadcast clients (OFFLINE_DATA_SAVED now2 (field data2 ''type''))"
    using payload by (simp add: saveOfflineData_def Let_def)
  show ?thesis
    unfolding Let_def s1_def [symmetric] s2_def [symmetric] q2 k1_def [symmetric] k2_def [symmetric]
    using p1 p2 m1' m2 by simp
qed

theorem enqueue_id_is_clock_reading_witness:
  "JObj [(''type'', JStr ''trade'')] \<noteq> JNull \<and> JObj [(''type'', JStr ''order'')] \<noteq> JNull
   \<and> (1700000000000 :: nat) \<noteq> 1700000000001
   \<and> saved_posted (saveOfflineData example_base [7] 1700000000001 (JObj [(''type'', JStr ''order'')]) example_saved)
       = [(7, OFFLINE_DATA_SAVED 1700000000001 (Some (JStr ''order'')))]
   \<and> cache_match (caches_get (saved_storage
         (saveOfflineData example_base [7] 1700000000001 (JObj [(''type'', JStr ''order'')]) example_saved))
         ''offline-data'')
       (new_Request (resolve example_base (''/api/offline/'' @ digits_of 1700000000000)))
       = Some (new_Response (Json (JObj [(''type'', JStr ''trade'')])))"
proof -
  have a: "JObj [(''type'', JStr ''trade'')] \<noteq> JNull" and b: "JObj [(''type'', JStr ''order'')] \<noteq> JNull"
    by simp_all
  have c: "(1700000000000 :: nat) \<noteq> 1700000000001"
    by simp
  show ?thesis
    using a b c enqueue_id_is_clock_reading [OF a b c, of example_base "[7]" "[]"]
    by (simp add: Let_def example_saved_def [symmetric] broadcast_def)
qed

text \<open>
  Claim C7 as stated has the ids of every pair of enqueue operations unique. Two enqueues
  at the same clock reading are given the same id, and the second replaces the entry of
  the first.
\<close>

theorem enqueue_same_millisecond_counterexample:
  "saved_posted (saveOfflineData example_base [7] 1700000000000 (JObj [(''type'', JStr ''trade'')]) [])
     = [(7, OFFLINE_DATA_SAVED 1700000000000 (Some (JStr ''trade'')))]
   \<and> saved_posted (saveOfflineData example_base [7] 1700000000000 (JObj [(''type'', JStr ''order'')]) example_saved)
     = [(7, OFFLINE_DATA_SAVED 1700000000000 (Some (JStr ''order'')))]
   \<and> map snd (caches_get (saved_storage
         (saveOfflineData example_base [7] 1700000000000 (JObj [(''type'', JStr ''order'')]) example_saved))
         ''offline-data'')
     = [new_Response (Json (JObj [(''type'', JStr ''order'')]))]"
  by (simp add: example_saved_eval saveOfflineData_def Let_def caches_open_def caches_keys_def
      caches_get_def caches_set_def cache_put_def cacheable_def new_Request_def new_Response_def resolve_def
      example_base_def digits_example broadcast_def)

section \<open>Installation\<close>

lemma fetch_fails_rejects: "fetch_fails net u \<Longrightarrow> addAll_rejects net u"
  by (auto simp: fetch_fails_def addAll_rejects_def split: fetch_result.splits)

lemma fetch_all_fails:
  "list_ex (addAll_rejects net) urls \<Longrightarrow> fetch_all net (map new_Request urls) = Inl TypeError"
  by (induction urls) (auto simp: addAll_rejects_def split: fetch_result.splits sum.splits)

lemma fetch_all_ok:
  "\<not> list_ex (addAll_rejects net) urls \<Longrightarrow>
     \<exists>es. fetch_all net (map new_Request urls) = Inr es
        \<and> fst ` set es = new_Request ` set urls
        \<and> (\<forall>(r, v)\<in>set es. http_method r = ''GET'' \<and> net r = NetResponse v \<and> ok v \<and> cacheable v)"
proof (induction urls)
  case Nil
  then show ?case by simp
next
  case (Cons u urls)
  then obtain es where es: "fetch_all net (map new_Request urls) = Inr es"
      "fst ` set es = new_Request ` set urls"
      "\<forall>(r, v)\<in>set es. http_method r = ''GET'' \<and> net r = NetResponse v \<and> ok v \<and> cacheable v"
    by auto
  from Cons.prems obtain v where v: "net (new_Request u) = NetResponse v" "ok v" "cacheable v"
    by (auto simp: addAll_rejects_def split: fetch_result.splits)
  have "fetch_all net (map new_Request (u # urls)) = Inr ((new_Request u, v) # es)"
    using es(1) v by simp
  moreover have "fst ` set ((new_Request u, v) # es) = new_Request ` set (u # urls)"
    using es(2) by simp
  moreover have "\<forall>(r, v)\<in>set ((new_Request u, v) # es). http_method r = ''GET'' \<and> net r = NetResponse v \<and> ok v \<and> cacheable v"
    using es(3) v by (simp add: new_Request_def)
  ultimately show ?case by blast
qed

lemma request_eq: "http_method r = http_method r' \<Longrightarrow> url r = url r' \<Longrightarrow> (r :: request) = r'"
  by simp

lemma put_all_match:
  assumes "\<forall>(r, v)\<in>set es. http_method r = ''GET'' \<and> net r = NetResponse v \<and> cacheable v"
    and "http_method r0 = ''GET''" and "net r0 = NetResponse v0"
    and "cache_match c r0 = Some v0 \<or> r0 \<in> fst ` set es"
  shows "cache_match (put_all c es) r0 = Some v0"
  using assms
proof (induction es arbitrary: c)
  case Nil
  then show ?case by simp
next
  case (Cons e es)
  obtain r v where e: "e = (r, v)" by (cases e)
  have get: "http_method r = ''GET''" and net: "net r = NetResponse v" and acc: "cacheable v"
    using Cons.prems(1) e by auto
  obtain c1 where put: "cache_put c r v = Inr c1"
    using get acc by (simp add: cache_put_def)
  have step: "put_all c (e # es) = put_all c1 es"
    using e put by simp
  have rest: "\<forall>(r, v)\<in>set es. http_method r = ''GET'' \<and> net r = NetResponse v \<and> cacheable v"
    using Cons.prems(1) by simp
  have "cache_match c1 r0 = Some v0 \<or> r0 \<in> fst ` set es"
  proof (cases "url r0 = url r")
    case True
    then have "r0 = r" using get Cons.prems(2) by (intro request_eq) simp_all
    then have "v0 = v" using net Cons.prems(3) by simp
    then show ?thesis using cache_match_put [OF get put] \<open>r0 = r\<close> by simp
  next
    case False
    then have same: "cache_match c1 r0 = cache_match c r0"
      using put by (rule cache_match_put_other)
    from False have "r0 \<noteq> r" by auto
    then show ?thesis using Cons.prems(4) same e by auto
  qed
  then show ?case
    unfolding step using Cons.IH [OF rest Cons.prems(2) Cons.prems(3)] by simp
qed

lemma addAll_fails:
  "list_ex (addAll_rejects net) urls \<Longrightarrow> cache_addAll net urls c = Inl TypeError"
  by (simp add: cache_addAll_def fetch_all_fails)

lemma addAll_stores:
  assumes "\<not> list_ex (addAll_rejects net) urls"
  shows "\<exists>c'. cache_addAll net urls c = Inr c'
     \<and> (\<forall>u\<in>set urls. \<exists>v. net (new_Request u) = NetResponse v \<and> ok v
            \<and> cache_match c' (new_Request u) = Some v)"
proof -
  from fetch_all_ok [OF assms] obtain es where es: "fetch_all net (map new_Request urls) = Inr es"
      "fst ` set es = new_Request ` set urls"
      "\<forall>(r, v)\<in>set es. http_method r = ''GET'' \<and> net r = NetResponse v \<and> ok v \<and> cacheable v"
    by blast
  have all: "\<forall>(r, v)\<in>set es. http_method r = ''GET'' \<and> net r = NetResponse v \<and> cacheable v"
    using es(3) by auto
  have "\<exists>v. net (new_Request u) = NetResponse v \<and> ok v
            \<and> cache_match (put_all c es) (new_Request u) = Some v" if u: "u \<in> set urls" for u
  proof -
    from u es(2) have mem: "new_Request u \<in> fst ` set es" by auto
    then obtain v where v: "(new_Request u, v) \<in> set es" by auto
    with es(3) have nv: "net (new_Request u) = NetResponse v" "ok v" by auto
    have "cache_match (put_all c es) (new_Request u) = Some v"
      using all _ nv(1) by (rule put_all_match) (simp_all add: new_Request_def mem [unfolded new_Request_def])
    with nv show ?thesis by blast
  qed
  then show ?thesis
    using es(1) by (simp add: cache_addAll_def)
qed

lemma install_sw1_fails:
  assumes "list_ex (addAll_rejects net) (CACHE_URLS base)"
  shows "installed (install_sw1 net base s) = Rejected TypeError
     \<and> (\<forall>name. caches_get (install_storage (install_sw1 net base s)) name = caches_get s name)"
  using addAll_fails [OF assms] by (simp add: install_sw1_def Let_def caches_get_open)

lemma install_sw2_fails:
  assumes "list_ex (addAll_rejects net) (STATIC_ASSETS base)"
  shows "installed (install_sw2 net base s) = Rejected TypeError
     \<and> (\<forall>name. caches_get (install_storage (install_sw2 net base s)) name = caches_get s name)"
  using addAll_fails [OF assms] by (simp add: install_sw2_def Let_def caches_get_open)

lemma install_sw1_stores:
  assumes "\<not> list_ex (addAll_rejects net) (CACHE_URLS base)"
  shows "installed (install_sw1 net base s) = Fulfilled ()
     \<and> (\<forall>u\<in>set (CACHE_URLS base). \<exists>v. net (new_Request u) = NetResponse v \<and> ok v
          \<and> cache_match (caches_get (install_storage (install_sw1 net base s)) CACHE_NAME_sw1)
               (new_Request u) = Some v)"
proof -
  define s1 where "s1 = caches_open CACHE_NAME_sw1 s"
  from addAll_stores [OF assms, of "caches_get s1 CACHE_NAME_sw1"]
  obtain c' where c': "cache_addAll net (CACHE_URLS base) (caches_get s1 CACHE_NAME_sw1) = Inr c'"
    "\<forall>u\<in>set (CACHE_URLS base). \<exists>v. net (new_Request u) = NetResponse v \<and> ok v
        \<and> cache_match c' (new_Request u) = Some v"
    by blast
  have mem: "CACHE_NAME_sw1 \<in> set (caches_keys s1)"
    unfolding s1_def by (rule caches_open_mem)
  have "install_sw1 net base s =
      \<lparr>installed = Fulfilled (), skip_waiting = True, install_storage = caches_set s1 CACHE_NAME_sw1 c'\<rparr>"
    unfolding install_sw1_def Let_def s1_def [symmetric] using c'(1) by simp
  then show ?thesis
    using c'(2) mem by (simp add: caches_get_set)
qed

lemma install_sw2_stores:
  assumes "\<not> list_ex (addAll_rejects net) (STATIC_ASSETS base)"
  shows "installed (install_sw2 net base s) = Fulfilled ()
     \<and> (\<forall>u\<in>set (STATIC_ASSETS base). \<exists>v. net (new_Request u) = NetResponse v \<and> ok v
          \<and> cache_match (caches_get (install_storage (install_sw2 net base s)) STATIC_CACHE_NAME)
               (new_Request u) = Some v)"
proof -
  define s1 where "s1 = caches_open STATIC_CACHE_NAME s"
  from addAll_stores [OF assms, of "caches_get s1 STATIC_CACHE_NAME"]
  obtain c' where c': "cache_addAll net (STATIC_ASSETS base) (caches_get s1 STATIC_CACHE_NAME) = Inr c'"
    "\<forall>u\<in>set (STATIC_ASSETS base). \<exists>v. net (new_Request u) = NetResponse v \<and> ok v
        \<and> cache_match c' (new_Request u) = Some v"
    by blast
  have mem: "STATIC_CACHE_NAME \<in> set (caches_keys s1)"
    unfolding s1_def by (rule caches_open_mem)
  have "install_sw2 net base s =
      \<lparr>installed = Fulfilled (), skip_waiting = True, install_storage = caches_set s1 STATIC_CACHE_NAME c'\<rparr>"
    unfolding install_sw2_def Let_def s1_def [symmetric] using c'(1) by simp
  then show ?thesis
    using c'(2) mem by (simp add: caches_get_set)
qed

text \<open>
  Claim C9. Install is all or nothing, in both workers. When the fetch of any single
  entry of the manifest fails (the network cannot be reached, or the status is not ok),
  the promise handed to \<open>waitUntil\<close> is rejected, no cache has gained or lost an entry, and
  the registration is as it was: the version that was active stays active. When the
  promise is fulfilled, which is what makes the new version eligible to activate, every
  entry of the manifest is stored in the static cache with the response the network gave.
\<close>

theorem install_all_or_nothing:
  "(list_ex (fetch_fails net) (CACHE_URLS base) \<longrightarrow>
       installed (install_sw1 net base s) = Rejected TypeError
     \<and> (\<forall>name. caches_get (install_storage (install_sw1 net base s)) name = caches_get s name)
     \<and> after_install version (install_sw1 net base s) reg = reg)
   \<and> (installed (install_sw1 net base s) = Fulfilled () \<longrightarrow>
       eligible (after_install version (install_sw1 net base s) reg) = Some version
     \<and> (\<forall>u\<in>set (CACHE_URLS base). \<exists>v. net (new_Request u) = NetResponse v \<and> ok v
          \<and> cache_match (caches_get (install_storage (install_sw1 net base s)) CACHE_NAME_sw1)
               (new_Request u) = Some v))
   \<and> (list_ex (fetch_fails net) (STATIC_ASSETS base) \<longrightarrow>
       installed (install_sw2 net base s) = Rejected TypeError
     \<and> (\<forall>name. caches_get (install_storage (install_sw2 net base s)) name = caches_get s name)
     \<and> after_install version (install_sw2 net base s) reg = reg)
   \<and> (installed (install_sw2 net base s) = Fulfilled () \<longrightarrow>
       eligible (after_install version (install_sw2 net base s) reg) = Some version
     \<and> (\<forall>u\<in>set (STATIC_ASSETS base). \<exists>v. net (new_Request u) = NetResponse v \<and> ok v
          \<and> cache_match (caches_get (install_storage (install_sw2 net base s)) STATIC_CACHE_NAME)
               (new_Request u) = Some v))"
proof -
  have a1: "list_ex (fetch_fails net) (CACHE_URLS base) \<longrightarrow>
       installed (install_sw1 net base s) = Rejected TypeError
     \<and> (\<forall>name. caches_get (install_storage (install_sw1 net base s)) name = caches_get s name)
     \<and> after_install version (install_sw1 net base s) reg = reg"
  proof (intro impI)
    assume "list_ex (fetch_fails net) (CACHE_URLS base)"
    then have "list_ex (addAll_rejects net) (CACHE_URLS base)"
      using fetch_fails_rejects [of net] by (auto simp: list_ex_iff)
    from install_sw1_fails [OF this, of s] show "installed (install_sw1 net base s) = Rejected TypeError
     \<and> (\<forall>name. caches_get (install_storage (install_sw1 net base s)) name = caches_get s name)
     \<and> after_install version (install_sw1 net base s) reg = reg"
      by (simp add: after_install_def)
  qed
  have b1: "installed (install_sw1 net base s) = Fulfilled () \<longrightarrow>
       eligible (after_install version (install_sw1 net base s) reg) = Some version
     \<and> (\<forall>u\<in>set (CACHE_URLS base). \<exists>v. net (new_Request u) = NetResponse v \<and> ok v
          \<and> cache_match (caches_get (install_storage (install_sw1 net base s)) CACHE_NAME_sw1)
               (new_Request u) = Some v)"
  proof (cases "list_ex (addAll_rejects net) (CACHE_URLS base)")
    case True
    then show ?thesis using install_sw1_fails [of net base s] by simp
  next
    case False
    then show ?thesis using install_sw1_stores [of net base s] by (simp add: after_install_def)
  qed
  have a2: "list_ex (fetch_fails net) (STATIC_ASSETS base) \<longrightarrow>
       installed (install_sw2 net base s) = Rejected TypeError
     \<and> (\<forall>name. caches_get (install_storage (install_sw2 net base s)) name = caches_get s name)
     \<and> after_install version (install_sw2 net base s) reg = reg"
  proof (intro impI)
    assume "list_ex (fetch_fails net) (STATIC_ASSETS base)"
    then have "list_ex (addAll_rejects net) (STATIC_ASSETS base)"
      using fetch_fails_rejects [of net] by (auto simp: list_ex_iff)
    from install_sw2_fails [OF this, of s] show "installed (install_sw2 net base s) = Rejected TypeError
     \<and> (\<forall>name. caches_get (install_storage (install_sw2 net base s)) name = caches_get s name)
     \<and> after_install version (install_sw2 net base s) reg = reg"
      by (simp add: after_install_def)
  qed
  have b2: "installed (install_sw2 net base s) = Fulfilled () \<longrightarrow>
       eligible (after_install version (install_sw2 net base s) reg) = Some version
     \<and> (\<forall>u\<in>set (STATIC_ASSETS base). \<exists>v. net (new_Request u) = NetResponse v \<and> ok v
          \<and> cache_match (caches_get (install_storage (install_sw2 net base s)) STATIC_CACHE_NAME)
               (new_Request u) = Some v)"
  proof (cases "list_ex (addAll_rejects net) (STATIC_ASSETS base)")
    case True
    then show ?thesis using install_sw2_fails [of net base s] by simp
  next
    case False
    then show ?thesis using install_sw2_stores [of net base s] by (simp add: after_install_def)
  qed
  from a1 b1 a2 b2 show ?thesis by blast
qed

theorem install_all_or_nothing_witness:
  "list_ex (fetch_fails manifest_missing) (CACHE_URLS example_base)
   \<and> list_ex (fetch_fails manifest_missing) (STATIC_ASSETS example_base)
   \<and> installed (install_sw1 manifest_missing example_base []) = Rejected TypeError
   \<and> caches_get (install_storage (install_sw1 manifest_missing example_base [])) CACHE_NAME_sw1 = []
   \<and> after_install ''new'' (install_sw1 manifest_missing example_base []) old_registration = old_registration
   \<and> installed (install_sw2 manifest_missing example_base []) = Rejected TypeError
   \<and> caches_get (install_storage (install_sw2 manifest_missing example_base [])) STATIC_CACHE_NAME = []
   \<and> after_install ''new'' (install_sw2 manifest_missing example_base []) old_registration = old_registration
   \<and> installed (install_sw1 online example_base []) = Fulfilled ()
   \<and> installed (install_sw2 online example_base []) = Fulfilled ()
   \<and> eligible (after_install ''new'' (install_sw1 online example_base []) old_registration) = Some ''new''
   \<and> cache_match (caches_get (install_storage (install_sw1 online example_base [])) CACHE_NAME_sw1)
        (new_Request font_awesome) = Some fresh
   \<and> cache_match (caches_get (install_storage (install_sw2 online example_base [])) STATIC_CACHE_NAME)
        (new_Request (resolve example_base ''/index.html'')) = Some fresh"
proof -
  have f1: "list_ex (fetch_fails manifest_missing) (CACHE_URLS example_base)"
    by (simp add: fetch_fails_def manifest_missing_def CACHE_URLS_def new_Request_def resolve_def
        example_base_def ok_def fresh_def font_awesome_def)
  have f2: "list_ex (fetch_fails manifest_missing) (STATIC_ASSETS example_base)"
    by (simp add: fetch_fails_def manifest_missing_def STATIC_ASSETS_def new_Request_def resolve_def
        example_base_def ok_def fresh_def font_awesome_def)
  have okf: "ok fresh"
    by (simp add: ok_def fresh_def)
  have accf: "cacheable fresh"
    by (simp add: cacheable_def fresh_def)
  have g1: "\<not> list_ex (addAll_rejects online) (CACHE_URLS example_base)"
    by (simp add: addAll_rejects_def online_def CACHE_URLS_def okf accf)
  have g2: "\<not> list_ex (addAll_rejects online) (STATIC_ASSETS example_base)"
    by (simp add: addAll_rejects_def online_def STATIC_ASSETS_def okf accf)
  have i1: "installed (install_sw1 online example_base []) = Fulfilled ()"
    using install_sw1_stores [OF g1] by simp
  have i2: "installed (install_sw2 online example_base []) = Fulfilled ()"
    using install_sw2_stores [OF g2] by simp
  have empty: "caches_get [] CACHE_NAME_sw1 = []" "caches_get [] STATIC_CACHE_NAME = []"
    by (simp_all add: caches_get_def)
  note down = install_all_or_nothing [of manifest_missing example_base "[]" "''new''" old_registration]
  note up = install_all_or_nothing [of online example_base "[]" "''new''" old_registration]
  show ?thesis
    using f1 f2 i1 i2 down up empty
    by (simp add: online_def CACHE_URLS_def STATIC_ASSETS_def)
qed

end
